theory Spec2Isabelle
  imports Main "HOL-Library.AList"
begin

section \<open>Data model of \<open>FRegistrationStorage\<close>\<close>

text \<open>
  Shallow embedding of \<^verbatim>\<open>Source/UnrealDI/Private/RegistrationStorage.cpp\<close>.

  A \<^verbatim>\<open>UClass*\<close> is an opaque identifier, a \<^verbatim>\<open>UObject*\<close> is an index into the list of
  live objects, a \<^verbatim>\<open>TSharedRef<FLifetimeHandler>\<close> is an index into the list of handlers
  (handlers are shared by reference, so their state lives in one store).
  Class pointers are never null in the model, so \<^verbatim>\<open>checkf(Type, ...)\<close> of
  \<^verbatim>\<open>ResolveAll\<close> always passes. \<^verbatim>\<open>InitOwner\<close> and \<^verbatim>\<open>AddReferencedObjects\<close> are not
  modelled: the creation context is a field of the storage, and tracing for the garbage
  collector changes nothing that resolution reads.
\<close>

type_synonym uclass = nat
type_synonym objref = nat
type_synonym handler_ref = nat

text \<open>
  Modelled from the spec: \<^verbatim>\<open>DI/Impl/Lifetimes.h\<close> is not part of the sources. The spec
  names two stock policies: Transient (\<open>get\<close> always returns empty, \<open>set\<close> is a no-op)
  and Cached (\<open>get\<close> returns the previously set instance if any, \<open>set\<close> stores it).
\<close>

datatype FLifetimeHandler = Transient | Cached "objref option"

fun handler_Get :: "FLifetimeHandler \<Rightarrow> objref option" where
  "handler_Get Transient = None"
| "handler_Get (Cached c) = c"

fun handler_Set :: "FLifetimeHandler \<Rightarrow> objref \<Rightarrow> FLifetimeHandler" where
  "handler_Set Transient x = Transient"
| "handler_Set (Cached c) x = Cached (Some x)"

text \<open>
  \<^verbatim>\<open>FResolver { EffectiveClass, LifetimeHandler }\<close>. \<open>EffectiveClass\<close> is a
  \<^verbatim>\<open>TSoftClassPtr\<close>: \<open>None\<close> is a soft pointer whose \<^verbatim>\<open>LoadSynchronous()\<close> yields null.
\<close>

record FResolver =
  EffectiveClass :: "uclass option"
  LifetimeHandler :: handler_ref

text \<open>
  One storage. \<open>Registrations\<close> is the \<^verbatim>\<open>TMap<UClass*, FResolversArray>\<close>, kept as an
  association list with unique keys; \<open>InstanceFactories\<close> holds object pointers
  (\<^verbatim>\<open>TScriptInterface<IInstanceFactory>\<close>).
\<close>

record FRegistrationStorage =
  Registrations :: "(uclass \<times> FResolver list) list"
  InstanceFactories :: "objref list"
  OuterForNewObject :: nat

record UObject =
  ObjClass :: uclass
  ObjOuter :: nat

text \<open>
  Calls into external collaborators (factory, lifetime handler, initializer functions)
  are recorded in the order in which they are made.
\<close>

datatype event =
    FactoryCreate objref uclass objref
  | NativeInitCalled objref nat "objref list"
  | ProcessEvent objref "objref list"
  | FinalizeCreation objref objref
  | LifetimeSet handler_ref objref

text \<open>
  The state of one scope chain. \<open>Storages st 0\<close> is the root storage (the one whose
  \<open>ParentStorage\<close> is null); the \<open>ParentStorage\<close> of \<open>Storages st (Suc p)\<close> is
  \<open>Storages st p\<close>. A storage is named by its depth in the chain.
\<close>

record di_state =
  Storages :: "nat \<Rightarrow> FRegistrationStorage"
  Handlers :: "FLifetimeHandler list"
  Objects :: "UObject list"
  Trace :: "event list"

datatype FProperty =
    FObjectProperty bool uclass
  | FInterfaceProperty bool uclass
  | FOtherProperty bool

record UFunction =
  ParmsSize :: nat
  Properties :: "FProperty list"

text \<open>
  The host's type metadata and the behaviour of the collaborators that are not part of
  the sources, taken as parameters.

  \<^item> \<open>IsInterface T\<close> is \<^verbatim>\<open>Type->IsChildOf<UInterface>()\<close>.
  \<^item> \<open>NativeInit\<close> and \<open>BlueprintInit\<close> are the two results of
    \<^verbatim>\<open>FDependenciesRegistry::FindInitFunctions\<close>.
    Modelled from the spec: the body of a native initializer is not part of the sources;
    the spec says it receives the current scope as a resolver capability so that it can
    itself call \<open>resolve\<close>. It is modelled by the list of types it resolves, in order,
    through the resolver it is handed.
  \<^item> \<open>FactoryIsClassSupported fc T\<close> is \<^verbatim>\<open>IsClassSupported(T)\<close> of a factory object of
    class \<open>fc\<close>; \<open>FactoryCreateNull fc T\<close> holds when its \<^verbatim>\<open>Create\<close> returns null.
  \<^item> \<open>DefaultInstanceFactory\<close> is \<^verbatim>\<open>GetMutableDefault<UDefaultInstanceFactory>()\<close>;
    \<open>UInstanceFactory_StaticClass\<close> is \<^verbatim>\<open>UInstanceFactory::StaticClass()\<close>.
\<close>

record class_env =
  IsInterface :: "uclass \<Rightarrow> bool"
  NativeInit :: "uclass \<Rightarrow> uclass list option"
  BlueprintInit :: "uclass \<Rightarrow> UFunction option"
  FactoryIsClassSupported :: "uclass \<Rightarrow> uclass \<Rightarrow> bool"
  FactoryCreateNull :: "uclass \<Rightarrow> uclass \<Rightarrow> bool"
  DefaultInstanceFactory :: objref
  UInstanceFactory_StaticClass :: uclass

text \<open>
  Every \<^verbatim>\<open>check\<close>/\<^verbatim>\<open>checkf\<close> that fails, and every dereference of a null or dangling
  pointer, is a fatal error.
\<close>

datatype error =
    TypeNotRegistered uclass
  | CannotAutoRegister uclass
  | EmptyResolversArray
  | EffectiveClassNull
  | NullParentStorage
  | FactoryReturnedNull
  | ParmsSizeMismatch
  | InvalidObject
  | InvalidHandler

text \<open>
  A call that returns yields \<open>Some (Inr (value, state))\<close>; a fatal error is
  \<open>Some (Inl e)\<close>; \<open>None\<close> is a recursion that did not finish within the given depth.
\<close>

type_synonym 'a result = "(error + 'a \<times> di_state) option"

type_synonym resolve_fn = "nat \<Rightarrow> uclass \<Rightarrow> di_state \<Rightarrow> objref result"

section \<open>Binding table\<close>

definition Find :: "(uclass \<times> FResolver list) list \<Rightarrow> uclass \<Rightarrow> FResolver list option" where
  "Find regs T = map_of regs T"

definition Contains :: "(uclass \<times> FResolver list) list \<Rightarrow> uclass \<Rightarrow> bool" where
  "Contains regs T = (case Find regs T of None \<Rightarrow> False | Some rs \<Rightarrow> True)"

definition set_Registrations ::
  "nat \<Rightarrow> (uclass \<times> FResolver list) list \<Rightarrow> di_state \<Rightarrow> di_state" where
  "set_Registrations s regs st =
     st\<lparr>Storages := (Storages st)(s := (Storages st s)\<lparr>Registrations := regs\<rparr>)\<rparr>"

text \<open>\<^verbatim>\<open>AddRegistration\<close>: \<^verbatim>\<open>FindOrAdd(Interface)\<close>, then \<^verbatim>\<open>Emplace\<close> at the end of the array.\<close>

definition AddRegistration ::
  "nat \<Rightarrow> uclass \<Rightarrow> uclass option \<Rightarrow> handler_ref \<Rightarrow> di_state \<Rightarrow> di_state" where
  "AddRegistration s Interface EffClass Lifetime st =
     (let regs = Registrations (Storages st s);
          Resolvers = (case Find regs Interface of None \<Rightarrow> [] | Some rs \<Rightarrow> rs)
      in set_Registrations s
           (AList.update Interface
              (Resolvers @ [\<lparr>EffectiveClass = EffClass, LifetimeHandler = Lifetime\<rparr>]) regs) st)"

text \<open>\<^verbatim>\<open>IsRegistered\<close>: the local table, else the parent.\<close>

fun IsRegistered :: "nat \<Rightarrow> uclass \<Rightarrow> di_state \<Rightarrow> bool" where
  "IsRegistered 0 T st = (if Contains (Registrations (Storages st 0)) T then True else False)"
| "IsRegistered (Suc p) T st =
     (if Contains (Registrations (Storages st (Suc p))) T then True
      else IsRegistered p T st)"

text \<open>
  The auto-registration branch of \<^verbatim>\<open>GetResolver\<close>:
  \<^verbatim>\<open>Registrations.Emplace(Type, { FResolver { Type, MakeShared<FLifetimeHandler_Transient>() } })\<close>
  executed by the storage without parent. \<open>AutoRegistered\<close> is the new binding (with a
  newly allocated handler), \<open>AutoRegister\<close> the state after the \<^verbatim>\<open>Emplace\<close>.
\<close>

definition AutoRegistered :: "uclass \<Rightarrow> di_state \<Rightarrow> FResolver" where
  "AutoRegistered T st = \<lparr>EffectiveClass = Some T, LifetimeHandler = length (Handlers st)\<rparr>"

definition AutoRegister :: "uclass \<Rightarrow> di_state \<Rightarrow> di_state" where
  "AutoRegister T st =
     set_Registrations 0 (AList.update T [AutoRegistered T st] (Registrations (Storages st 0)))
       (st\<lparr>Handlers := Handlers st @ [Transient]\<rparr>)"

text \<open>
  \<^verbatim>\<open>GetResolver\<close>. The source returns a pointer to the array element; bindings are
  immutable and the handler is held by reference, so the model returns the element.
  \<^verbatim>\<open>Last()\<close> of an empty array fails its range check.
\<close>

fun GetResolver :: "class_env \<Rightarrow> nat \<Rightarrow> uclass \<Rightarrow> di_state \<Rightarrow> error + FResolver \<times> di_state" where
  "GetResolver env 0 T st =
     (case Find (Registrations (Storages st 0)) T of
        Some rs \<Rightarrow> (if rs = [] then Inl EmptyResolversArray else Inr (last rs, st))
      | None \<Rightarrow>
          (if IsInterface env T then Inl (CannotAutoRegister T)
           else Inr (AutoRegistered T st, AutoRegister T st)))"
| "GetResolver env (Suc p) T st =
     (case Find (Registrations (Storages st (Suc p))) T of
        Some rs \<Rightarrow> (if rs = [] then Inl EmptyResolversArray else Inr (last rs, st))
      | None \<Rightarrow> GetResolver env p T st)"

section \<open>Instance factory chain\<close>

definition GetClass :: "di_state \<Rightarrow> objref \<Rightarrow> uclass option" where
  "GetClass st Object =
     (if Object < length (Objects st) then Some (ObjClass (Objects st ! Object)) else None)"

text \<open>The loop of \<^verbatim>\<open>FindInstanceFactory\<close> over the local \<open>InstanceFactories\<close>.\<close>

fun FindLocalFactory ::
  "class_env \<Rightarrow> di_state \<Rightarrow> objref list \<Rightarrow> uclass \<Rightarrow> error + objref option" where
  "FindLocalFactory env st [] T = Inr None"
| "FindLocalFactory env st (f # fs) T =
     (case GetClass st f of
        None \<Rightarrow> Inl InvalidObject
      | Some fc \<Rightarrow>
          (if FactoryIsClassSupported env fc T then Inr (Some f)
           else FindLocalFactory env st fs T))"

text \<open>
  \<^verbatim>\<open>FindInstanceFactory\<close>: after the loop, \<^verbatim>\<open>ParentStorage->FindInstanceFactory(Type)\<close>
  without a null test; in the root storage that is a null dereference.
\<close>

fun FindInstanceFactory :: "class_env \<Rightarrow> nat \<Rightarrow> uclass \<Rightarrow> di_state \<Rightarrow> error + objref" where
  "FindInstanceFactory env 0 T st =
     (case FindLocalFactory env st (InstanceFactories (Storages st 0)) T of
        Inl e \<Rightarrow> Inl e
      | Inr (Some f) \<Rightarrow> Inr f
      | Inr None \<Rightarrow> Inl NullParentStorage)"
| "FindInstanceFactory env (Suc p) T st =
     (case FindLocalFactory env st (InstanceFactories (Storages st (Suc p))) T of
        Inl e \<Rightarrow> Inl e
      | Inr (Some f) \<Rightarrow> Inr f
      | Inr None \<Rightarrow> FindInstanceFactory env p T st)"

text \<open>
  \<^verbatim>\<open>Factory->Create(OuterForNewObject, EffectiveClass)\<close> followed by the
  \<^verbatim>\<open>checkf(Result != nullptr, ...)\<close>: a new object of the requested class.
\<close>

definition Factory_Create ::
  "class_env \<Rightarrow> objref \<Rightarrow> nat \<Rightarrow> uclass \<Rightarrow> di_state \<Rightarrow> error + objref \<times> di_state" where
  "Factory_Create env Factory Outer EffClass st =
     (case GetClass st Factory of
        None \<Rightarrow> Inl InvalidObject
      | Some fc \<Rightarrow>
          (if FactoryCreateNull env fc EffClass then Inl FactoryReturnedNull
           else Inr (length (Objects st),
                     st\<lparr>Objects := Objects st @ [\<lparr>ObjClass = EffClass, ObjOuter = Outer\<rparr>],
                        Trace := Trace st @ [FactoryCreate Factory EffClass (length (Objects st))]\<rparr>)))"

definition Factory_FinalizeCreation :: "objref \<Rightarrow> objref \<Rightarrow> di_state \<Rightarrow> di_state" where
  "Factory_FinalizeCreation Factory Object st =
     st\<lparr>Trace := Trace st @ [FinalizeCreation Factory Object]\<rparr>"

definition LifetimeHandler_Set :: "handler_ref \<Rightarrow> objref \<Rightarrow> di_state \<Rightarrow> di_state" where
  "LifetimeHandler_Set h Object st =
     st\<lparr>Handlers := (Handlers st)[h := handler_Set (Handlers st ! h) Object],
        Trace := Trace st @ [LifetimeSet h Object]\<rparr>"

section \<open>Injection\<close>

definition sizeof_TObjectPtr :: nat where
  "sizeof_TObjectPtr = 8"

definition sizeof_FScriptInterface :: nat where
  "sizeof_FScriptInterface = 16"

text \<open>
  Modelled from the spec: the body of a native initializer is not part of the sources.
  Handed the object and the owner of the storage \<open>s\<close> as resolver, it resolves its
  dependencies through that resolver, in order, and is then given the results.
\<close>

fun ResolveDependencies ::
  "resolve_fn \<Rightarrow> nat \<Rightarrow> uclass list \<Rightarrow> objref list \<Rightarrow> di_state \<Rightarrow> (objref list) result" where
  "ResolveDependencies rec s [] args st = Some (Inr (args, st))"
| "ResolveDependencies rec s (T # Ts) args st =
     (case rec s T st of
        None \<Rightarrow> None
      | Some (Inl e) \<Rightarrow> Some (Inl e)
      | Some (Inr (Result, st1)) \<Rightarrow> ResolveDependencies rec s Ts (args @ [Result]) st1)"

definition CallNativeInit ::
  "resolve_fn \<Rightarrow> nat \<Rightarrow> objref \<Rightarrow> uclass list option \<Rightarrow> di_state \<Rightarrow> unit result" where
  "CallNativeInit rec s Object NativeInitFunction st =
     (case NativeInitFunction of
        None \<Rightarrow> Some (Inr ((), st))
      | Some deps \<Rightarrow>
          (case ResolveDependencies rec s deps [] st of
             None \<Rightarrow> None
           | Some (Inl e) \<Rightarrow> Some (Inl e)
           | Some (Inr (args, st1)) \<Rightarrow>
               Some (Inr ((), st1\<lparr>Trace := Trace st1 @ [NativeInitCalled Object s args]\<rparr>))))"

text \<open>
  The argument loop of \<^verbatim>\<open>Inject\<close> over the properties of the blueprint initializer:
  \<open>args\<close> are the values written so far, \<open>cur\<close> is \<^verbatim>\<open>CurrentArgument - Arguments\<close>.
\<close>

fun PrepareArguments ::
  "resolve_fn \<Rightarrow> nat \<Rightarrow> FProperty list \<Rightarrow> objref list \<Rightarrow> nat \<Rightarrow> di_state
     \<Rightarrow> (objref list \<times> nat) result" where
  "PrepareArguments rec s [] args cur st = Some (Inr ((args, cur), st))"
| "PrepareArguments rec s (FObjectProperty parm PropertyClass # ps) args cur st =
     (if parm then
        (case rec s PropertyClass st of
           None \<Rightarrow> None
         | Some (Inl e) \<Rightarrow> Some (Inl e)
         | Some (Inr (Result, st1)) \<Rightarrow>
             PrepareArguments rec s ps (args @ [Result]) (cur + sizeof_TObjectPtr) st1)
      else PrepareArguments rec s ps args cur st)"
| "PrepareArguments rec s (FInterfaceProperty parm InterfaceClass # ps) args cur st =
     (if parm then
        (case rec s InterfaceClass st of
           None \<Rightarrow> None
         | Some (Inl e) \<Rightarrow> Some (Inl e)
         | Some (Inr (Result, st1)) \<Rightarrow>
             PrepareArguments rec s ps (args @ [Result]) (cur + sizeof_FScriptInterface) st1)
      else PrepareArguments rec s ps args cur st)"
| "PrepareArguments rec s (FOtherProperty parm # ps) args cur st =
     PrepareArguments rec s ps args cur st"

definition CallBlueprintInit ::
  "resolve_fn \<Rightarrow> nat \<Rightarrow> objref \<Rightarrow> UFunction option \<Rightarrow> di_state \<Rightarrow> unit result" where
  "CallBlueprintInit rec s Object BlueprintInitFunction st =
     (case BlueprintInitFunction of
        None \<Rightarrow> Some (Inr ((), st))
      | Some fn \<Rightarrow>
          (case PrepareArguments rec s (Properties fn) [] 0 st of
             None \<Rightarrow> None
           | Some (Inl e) \<Rightarrow> Some (Inl e)
           | Some (Inr ((args, cur), st1)) \<Rightarrow>
               (if cur = ParmsSize fn
                then Some (Inr ((), st1\<lparr>Trace := Trace st1 @ [ProcessEvent Object args]\<rparr>))
                else Some (Inl ParmsSizeMismatch))))"

text \<open>
  \<^verbatim>\<open>Inject\<close>, storage \<open>s\<close> being \<^verbatim>\<open>this\<close>. \<open>rec\<close> is the \<^verbatim>\<open>Resolve\<close> entry point the
  nested resolutions go through.
\<close>

definition Inject :: "resolve_fn \<Rightarrow> class_env \<Rightarrow> nat \<Rightarrow> objref \<Rightarrow> di_state \<Rightarrow> bool result" where
  "Inject rec env s Object st =
     (case GetClass st Object of
        None \<Rightarrow> Some (Inl InvalidObject)
      | Some Class \<Rightarrow>
          (case CallNativeInit rec s Object (NativeInit env Class) st of
             None \<Rightarrow> None
           | Some (Inl e) \<Rightarrow> Some (Inl e)
           | Some (Inr (u, st1)) \<Rightarrow>
               (case CallBlueprintInit rec s Object (BlueprintInit env Class) st1 of
                  None \<Rightarrow> None
                | Some (Inl e) \<Rightarrow> Some (Inl e)
                | Some (Inr (v, st2)) \<Rightarrow>
                    Some (Inr (NativeInit env Class \<noteq> None \<or> BlueprintInit env Class \<noteq> None,
                               st2)))))"

definition CanInject :: "class_env \<Rightarrow> uclass \<Rightarrow> bool" where
  "CanInject env Class = (NativeInit env Class \<noteq> None \<or> BlueprintInit env Class \<noteq> None)"

section \<open>Resolution\<close>

definition ResolveImpl ::
  "resolve_fn \<Rightarrow> class_env \<Rightarrow> nat \<Rightarrow> FResolver \<Rightarrow> di_state \<Rightarrow> objref result" where
  "ResolveImpl rec env s Resolver st =
     (if LifetimeHandler Resolver < length (Handlers st) then
        (case handler_Get (Handlers st ! LifetimeHandler Resolver) of
           Some Result \<Rightarrow> Some (Inr (Result, st))
         | None \<Rightarrow>
             (case EffectiveClass Resolver of
                None \<Rightarrow> Some (Inl EffectiveClassNull)
              | Some EffClass \<Rightarrow>
                  (case FindInstanceFactory env s EffClass st of
                     Inl e \<Rightarrow> Some (Inl e)
                   | Inr Factory \<Rightarrow>
                       (case Factory_Create env Factory (OuterForNewObject (Storages st s))
                               EffClass st of
                          Inl e \<Rightarrow> Some (Inl e)
                        | Inr (Result, st1) \<Rightarrow>
                            (case Inject rec env s Result st1 of
                               None \<Rightarrow> None
                             | Some (Inl e) \<Rightarrow> Some (Inl e)
                             | Some (Inr (b, st2)) \<Rightarrow>
                                 Some (Inr (Result,
                                   LifetimeHandler_Set (LifetimeHandler Resolver) Result
                                     (Factory_FinalizeCreation Factory Result st2))))))))
      else Some (Inl InvalidHandler))"

text \<open>
  \<^verbatim>\<open>Resolve\<close>. The recursion through \<^verbatim>\<open>Inject\<close> is unbounded when bindings depend on
  each other in a cycle; the first argument bounds its depth.
\<close>

primrec Resolve :: "nat \<Rightarrow> class_env \<Rightarrow> resolve_fn" where
  "Resolve 0 env = (\<lambda>s T st. None)"
| "Resolve (Suc n) env =
     (\<lambda>s T st. case GetResolver env s T st of
                  Inl e \<Rightarrow> Some (Inl e)
                | Inr (Resolver, st1) \<Rightarrow> ResolveImpl (Resolve n env) env s Resolver st1)"

section \<open>Collect-all\<close>

text \<open>
  The counting loop of \<^verbatim>\<open>ResolveAll\<close>, from \<^verbatim>\<open>this\<close> up to the root. The counter is
  an \<^verbatim>\<open>int32\<close> in the source; it counts array elements held in memory and is a natural
  number here.
\<close>

fun TotalResolvers :: "nat \<Rightarrow> uclass \<Rightarrow> di_state \<Rightarrow> nat \<Rightarrow> nat" where
  "TotalResolvers 0 T st Count =
     Count + (case Find (Registrations (Storages st 0)) T of None \<Rightarrow> 0 | Some rs \<Rightarrow> length rs)"
| "TotalResolvers (Suc p) T st Count =
     TotalResolvers p T st
       (Count + (case Find (Registrations (Storages st (Suc p))) T of
                   None \<Rightarrow> 0 | Some rs \<Rightarrow> length rs))"

text \<open>The \<^verbatim>\<open>for\<close> loop of \<^verbatim>\<open>AppendObjectsCollection\<close>; \<open>Data\<close> is what has been written.\<close>

fun AppendResolvers ::
  "resolve_fn \<Rightarrow> class_env \<Rightarrow> nat \<Rightarrow> FResolver list \<Rightarrow> objref list \<Rightarrow> di_state
     \<Rightarrow> (objref list) result" where
  "AppendResolvers rec env s [] Data st = Some (Inr (Data, st))"
| "AppendResolvers rec env s (Resolver # rs) Data st =
     (case ResolveImpl rec env s Resolver st of
        None \<Rightarrow> None
      | Some (Inl e) \<Rightarrow> Some (Inl e)
      | Some (Inr (Result, st1)) \<Rightarrow> AppendResolvers rec env s rs (Data @ [Result]) st1)"

definition AppendLocal ::
  "resolve_fn \<Rightarrow> class_env \<Rightarrow> nat \<Rightarrow> uclass \<Rightarrow> objref list \<Rightarrow> di_state \<Rightarrow> (objref list) result" where
  "AppendLocal rec env s T Data st =
     (case Find (Registrations (Storages st s)) T of
        None \<Rightarrow> Some (Inr (Data, st))
      | Some rs \<Rightarrow> AppendResolvers rec env s rs Data st)"

fun AppendObjectsCollection ::
  "resolve_fn \<Rightarrow> class_env \<Rightarrow> nat \<Rightarrow> uclass \<Rightarrow> objref list \<Rightarrow> di_state \<Rightarrow> (objref list) result" where
  "AppendObjectsCollection rec env 0 T Data st = AppendLocal rec env 0 T Data st"
| "AppendObjectsCollection rec env (Suc p) T Data st =
     (case AppendObjectsCollection rec env p T Data st of
        None \<Rightarrow> None
      | Some (Inl e) \<Rightarrow> Some (Inl e)
      | Some (Inr (Data1, st1)) \<Rightarrow> AppendLocal rec env (Suc p) T Data1 st1)"

text \<open>
  \<^verbatim>\<open>TObjectsCollection<UObject>(Data, TotalResolvers)\<close>: \<open>Written\<close> are the pointers put
  into the buffer by \<^verbatim>\<open>AppendObjectsCollection\<close>, \<open>Num\<close> is the size the buffer was
  allocated with and the collection is given.
\<close>

record TObjectsCollection =
  Written :: "objref list"
  Num :: nat

definition ResolveAll ::
  "nat \<Rightarrow> class_env \<Rightarrow> nat \<Rightarrow> uclass \<Rightarrow> di_state \<Rightarrow> TObjectsCollection result" where
  "ResolveAll n env s T st =
     (let Count = TotalResolvers s T st 0
      in if Count > 0 then
           (case AppendObjectsCollection (Resolve n env) env s T [] st of
              None \<Rightarrow> None
            | Some (Inl e) \<Rightarrow> Some (Inl e)
            | Some (Inr (Data, st1)) \<Rightarrow> Some (Inr (\<lparr>Written = Data, Num = Count\<rparr>, st1)))
         else Some (Inl (TypeNotRegistered T)))"

section \<open>Initialization of the factory list\<close>

definition set_InstanceFactories :: "nat \<Rightarrow> objref list \<Rightarrow> di_state \<Rightarrow> di_state" where
  "set_InstanceFactories s fs st =
     st\<lparr>Storages := (Storages st)(s := (Storages st s)\<lparr>InstanceFactories := fs\<rparr>)\<rparr>"

text \<open>
  The first statement of \<^verbatim>\<open>InitServices\<close>: only a storage without parent adds the
  default factory to its list.
\<close>

definition AddDefaultFactory :: "class_env \<Rightarrow> nat \<Rightarrow> di_state \<Rightarrow> di_state" where
  "AddDefaultFactory env s st =
     (if s = 0
      then set_InstanceFactories s
             (InstanceFactories (Storages st s) @ [DefaultInstanceFactory env]) st
      else st)"

text \<open>
  \<^verbatim>\<open>InitServices\<close>: after the default factory, the result of
  \<^verbatim>\<open>ResolveAll(UInstanceFactory::StaticClass())\<close> is copied behind the list when the
  local table contains that key, then the list is reversed.
\<close>

definition InitServices :: "nat \<Rightarrow> class_env \<Rightarrow> nat \<Rightarrow> di_state \<Rightarrow> unit result" where
  "InitServices n env s st =
     (let st1 = AddDefaultFactory env s st
      in if Contains (Registrations (Storages st1 s)) (UInstanceFactory_StaticClass env) then
           (case ResolveAll n env s (UInstanceFactory_StaticClass env) st1 of
              None \<Rightarrow> None
            | Some (Inl e) \<Rightarrow> Some (Inl e)
            | Some (Inr (coll, st2)) \<Rightarrow>
                Some (Inr ((), set_InstanceFactories s
                                 (rev (InstanceFactories (Storages st2 s) @ Written coll)) st2)))
         else Some (Inr ((), set_InstanceFactories s
                               (rev (InstanceFactories (Storages st1 s))) st1)))"

section \<open>Specification-level notions\<close>

text \<open>
  The bindings a collect-all for \<open>T\<close> issued in storage \<open>s\<close> ranges over, as the spec
  words it: those of the whole ancestor chain, the outermost ancestor first and \<open>s\<close>
  itself last, each storage's bindings in registration order. Every binding is paired
  with the storage that holds it.
\<close>

definition LocalResolvers :: "nat \<Rightarrow> uclass \<Rightarrow> di_state \<Rightarrow> FResolver list" where
  "LocalResolvers s T st = (case Find (Registrations (Storages st s)) T of None \<Rightarrow> [] | Some rs \<Rightarrow> rs)"

fun AllResolvers :: "nat \<Rightarrow> uclass \<Rightarrow> di_state \<Rightarrow> (nat \<times> FResolver) list" where
  "AllResolvers 0 T st = map (Pair 0) (LocalResolvers 0 T st)"
| "AllResolvers (Suc p) T st = AllResolvers p T st @ map (Pair (Suc p)) (LocalResolvers (Suc p) T st)"

text \<open>The part of \<open>AllResolvers\<close> that comes from the ancestors of \<open>s\<close>.\<close>

definition AncestorResolvers :: "nat \<Rightarrow> uclass \<Rightarrow> di_state \<Rightarrow> (nat \<times> FResolver) list" where
  "AncestorResolvers s T st = (case s of 0 \<Rightarrow> [] | Suc p \<Rightarrow> AllResolvers p T st)"

text \<open>
  One lifetime-aware resolution per binding, in list order, each run by the storage
  that holds the binding; the results are appended in that order.
\<close>

fun ResolveEach ::
  "resolve_fn \<Rightarrow> class_env \<Rightarrow> (nat \<times> FResolver) list \<Rightarrow> objref list \<Rightarrow> di_state
     \<Rightarrow> (objref list) result" where
  "ResolveEach rec env [] Data st = Some (Inr (Data, st))"
| "ResolveEach rec env ((s, Resolver) # bs) Data st =
     (case ResolveImpl rec env s Resolver st of
        None \<Rightarrow> None
      | Some (Inl e) \<Rightarrow> Some (Inl e)
      | Some (Inr (Result, st1)) \<Rightarrow> ResolveEach rec env bs (Data @ [Result]) st1)"

text \<open>
  What every call leaves alone: all storages other than the root, the factory list and
  the creation context of the root, and every key already present in the root table;
  the trace, the object store and the handler store only grow.
\<close>

definition frame :: "di_state \<Rightarrow> di_state \<Rightarrow> bool" where
  "frame st st' \<longleftrightarrow>
     (\<forall>i. Storages st' (Suc i) = Storages st (Suc i)) \<and>
     InstanceFactories (Storages st' 0) = InstanceFactories (Storages st 0) \<and>
     OuterForNewObject (Storages st' 0) = OuterForNewObject (Storages st 0) \<and>
     (\<forall>K rs. Find (Registrations (Storages st 0)) K = Some rs \<longrightarrow>
             Find (Registrations (Storages st' 0)) K = Some rs) \<and>
     (\<exists>t. Trace st' = Trace st @ t) \<and>
     (\<exists>os. Objects st' = Objects st @ os) \<and>
     length (Handlers st) \<le> length (Handlers st')"

definition rec_frame :: "resolve_fn \<Rightarrow> bool" where
  "rec_frame rec \<longleftrightarrow> (\<forall>s T st x st'. rec s T st = Some (Inr (x, st')) \<longrightarrow> frame st st')"

text \<open>
  Resolving a list of types through storage \<open>s\<close>, in order, each resolution continuing
  in the state the previous one left: the results in the same order.
\<close>

fun ResolveEachIn :: "resolve_fn \<Rightarrow> nat \<Rightarrow> uclass list \<Rightarrow> di_state \<Rightarrow> (objref list) result" where
  "ResolveEachIn rec s [] st = Some (Inr ([], st))"
| "ResolveEachIn rec s (T # Ts) st =
     (case rec s T st of
        None \<Rightarrow> None
      | Some (Inl e) \<Rightarrow> Some (Inl e)
      | Some (Inr (x, st1)) \<Rightarrow>
          (case ResolveEachIn rec s Ts st1 of
             None \<Rightarrow> None
           | Some (Inl e) \<Rightarrow> Some (Inl e)
           | Some (Inr (xs, st2)) \<Rightarrow> Some (Inr (x # xs, st2))))"

text \<open>
  What the spec calls the declared parameters of a reflective initializer: the classes
  of its parameters that are object or interface typed, in declaration order, and the
  number of bytes their marshalled values take.
\<close>

fun ParmClass :: "FProperty \<Rightarrow> uclass list" where
  "ParmClass (FObjectProperty parm c) = (if parm then [c] else [])"
| "ParmClass (FInterfaceProperty parm c) = (if parm then [c] else [])"
| "ParmClass (FOtherProperty parm) = []"

fun ParmSize :: "FProperty \<Rightarrow> nat" where
  "ParmSize (FObjectProperty parm c) = (if parm then sizeof_TObjectPtr else 0)"
| "ParmSize (FInterfaceProperty parm c) = (if parm then sizeof_FScriptInterface else 0)"
| "ParmSize (FOtherProperty parm) = 0"

definition DeclaredParameters :: "UFunction \<Rightarrow> uclass list" where
  "DeclaredParameters fn = concat (map ParmClass (Properties fn))"

definition MarshalledSize :: "UFunction \<Rightarrow> nat" where
  "MarshalledSize fn = sum_list (map ParmSize (Properties fn))"

text \<open>
  Injection as the spec words it. The direct initializer, if declared, has its
  dependencies resolved through \<open>s\<close> and is given them; then the parameters of the
  reflective initializer, if declared, are resolved through \<open>s\<close> and the initializer is
  invoked with them. The answer is whether any of the two is declared.
\<close>

definition DeliverNative ::
  "resolve_fn \<Rightarrow> class_env \<Rightarrow> nat \<Rightarrow> objref \<Rightarrow> uclass \<Rightarrow> di_state \<Rightarrow> unit result" where
  "DeliverNative rec env s x c st =
     (case NativeInit env c of
        None \<Rightarrow> Some (Inr ((), st))
      | Some deps \<Rightarrow>
          (case ResolveEachIn rec s deps st of
             None \<Rightarrow> None
           | Some (Inl e) \<Rightarrow> Some (Inl e)
           | Some (Inr (args, st1)) \<Rightarrow>
               Some (Inr ((), st1\<lparr>Trace := Trace st1 @ [NativeInitCalled x s args]\<rparr>))))"

definition DeliverBlueprint ::
  "resolve_fn \<Rightarrow> class_env \<Rightarrow> nat \<Rightarrow> objref \<Rightarrow> uclass \<Rightarrow> di_state \<Rightarrow> unit result" where
  "DeliverBlueprint rec env s x c st =
     (case BlueprintInit env c of
        None \<Rightarrow> Some (Inr ((), st))
      | Some fn \<Rightarrow>
          (case ResolveEachIn rec s (DeclaredParameters fn) st of
             None \<Rightarrow> None
           | Some (Inl e) \<Rightarrow> Some (Inl e)
           | Some (Inr (args, st1)) \<Rightarrow>
               (if MarshalledSize fn = ParmsSize fn
                then Some (Inr ((), st1\<lparr>Trace := Trace st1 @ [ProcessEvent x args]\<rparr>))
                else Some (Inl ParmsSizeMismatch))))"

definition InjectSpec :: "resolve_fn \<Rightarrow> class_env \<Rightarrow> nat \<Rightarrow> objref \<Rightarrow> di_state \<Rightarrow> bool result" where
  "InjectSpec rec env s x st =
     (case GetClass st x of
        None \<Rightarrow> Some (Inl InvalidObject)
      | Some c \<Rightarrow>
          (case DeliverNative rec env s x c st of
             None \<Rightarrow> None
           | Some (Inl e) \<Rightarrow> Some (Inl e)
           | Some (Inr (u, st1)) \<Rightarrow>
               (case DeliverBlueprint rec env s x c st1 of
                  None \<Rightarrow> None
                | Some (Inl e) \<Rightarrow> Some (Inl e)
                | Some (Inr (v, st2)) \<Rightarrow> Some (Inr (CanInject env c, st2)))))"

text \<open>
  The factory chain of storage \<open>s\<close>: its own list, then the list of its parent, and so
  on up to the root. \<open>Supports\<close> is \<^verbatim>\<open>IsClassSupported\<close> of a factory object;
  \<open>DefaultOfRoot\<close> is the default factory in the root and nothing elsewhere.
\<close>

definition Supports :: "class_env \<Rightarrow> di_state \<Rightarrow> uclass \<Rightarrow> objref \<Rightarrow> bool" where
  "Supports env st T f =
     (case GetClass st f of None \<Rightarrow> False | Some fc \<Rightarrow> FactoryIsClassSupported env fc T)"

fun FactoryChain :: "nat \<Rightarrow> di_state \<Rightarrow> objref list" where
  "FactoryChain 0 st = InstanceFactories (Storages st 0)"
| "FactoryChain (Suc p) st = InstanceFactories (Storages st (Suc p)) @ FactoryChain p st"

definition DefaultOfRoot :: "class_env \<Rightarrow> nat \<Rightarrow> objref list" where
  "DefaultOfRoot env s = (if s = 0 then [DefaultInstanceFactory env] else [])"

text \<open>
  A resolver \<open>rec'\<close> that returns whatever \<open>rec\<close> returns: used to show that a larger
  depth bound never changes an outcome that a smaller one has reached.
\<close>

definition rec_le :: "resolve_fn \<Rightarrow> resolve_fn \<Rightarrow> bool" where
  "rec_le rec rec' \<longleftrightarrow> (\<forall>s T st r. rec s T st = Some r \<longrightarrow> rec' s T st = Some r)"

section \<open>A small scope chain\<close>

text \<open>
  Classes: \<open>1\<close> is the contract \<open>I\<close>; \<open>2\<close>, \<open>3\<close>, \<open>4\<close> are its implementations
  \<open>X\<close>, \<open>Y\<close>, \<open>Z\<close>; \<open>5\<close> is a class whose blueprint initializer takes one \<open>I\<close>;
  \<open>6\<close> is a class whose native initializer resolves one \<open>I\<close>; \<open>7\<close> is a class
  without initializer; \<open>8\<close> is a class whose blueprint initializer takes an object of
  class \<open>7\<close> and an \<open>I\<close>; \<open>10\<close> is the class of the default factory, which is object \<open>0\<close>.
\<close>

definition ex_env :: class_env where
  "ex_env =
     \<lparr>IsInterface = (\<lambda>c. c = 1),
      NativeInit = (\<lambda>c. if c = 6 then Some [1] else None),
      BlueprintInit = (\<lambda>c. if c = 5
                           then Some \<lparr>ParmsSize = 16, Properties = [FInterfaceProperty True 1]\<rparr>
                           else if c = 8
                           then Some \<lparr>ParmsSize = 24,
                                      Properties = [FObjectProperty True 7, FOtherProperty False,
                                                    FInterfaceProperty True 1]\<rparr>
                           else None),
      FactoryIsClassSupported = (\<lambda>fc T. True),
      FactoryCreateNull = (\<lambda>fc T. False),
      DefaultInstanceFactory = 0,
      UInstanceFactory_StaticClass = 11\<rparr>"

definition ex_storage :: FRegistrationStorage where
  "ex_storage = \<lparr>Registrations = [], InstanceFactories = [], OuterForNewObject = 0\<rparr>"

text \<open>A root with its default factory and a child, no bindings; four handlers.\<close>

definition ex_empty :: di_state where
  "ex_empty =
     \<lparr>Storages = (\<lambda>i. ex_storage)(0 := ex_storage\<lparr>InstanceFactories := [0]\<rparr>),
      Handlers = [Transient, Cached None, Transient, Transient],
      Objects = [\<lparr>ObjClass = 10, ObjOuter = 0\<rparr>],
      Trace = []\<rparr>"

text \<open>The root binds \<open>I\<close> to \<open>X\<close>; the child binds \<open>I\<close> to \<open>Y\<close> and then to \<open>Z\<close>.\<close>

definition ex_state :: di_state where
  "ex_state =
     AddRegistration 1 1 (Some 4) 2
       (AddRegistration 1 1 (Some 3) 1
          (AddRegistration 0 1 (Some 2) 0 ex_empty))"

text \<open>The same chain with the handler of the binding \<open>I\<close> to \<open>Y\<close> already holding object \<open>0\<close>.\<close>

definition ex_cached :: di_state where
  "ex_cached = ex_state\<lparr>Handlers := [Transient, Cached (Some 0), Transient, Transient]\<rparr>"


text \<open>The same chain where the root also binds class \<open>5\<close> to itself.\<close>

definition ex_dependent :: di_state where
  "ex_dependent = AddRegistration 0 5 (Some 5) 3 ex_state"

text \<open>
  The chain where the root also binds class \<open>5\<close>, with one more object (\<open>1\<close>, of class
  \<open>4\<close>) held by the handler of the child's last binding of \<open>I\<close>.
\<close>

definition ex_override :: di_state where
  "ex_override =
     ex_dependent\<lparr>Handlers := [Transient, Cached None, Cached (Some 1), Transient],
                  Objects := Objects ex_dependent @ [\<lparr>ObjClass = 4, ObjOuter = 0\<rparr>]\<rparr>"

section \<open>A chain with user factories\<close>

text \<open>
  Class \<open>10\<close> is the class of the default factory (object \<open>0\<close>), which supports every
  class; \<open>20\<close> is a factory class that supports class \<open>7\<close> only; \<open>21\<close> is a factory
  class that supports nothing. The root binds \<^verbatim>\<open>UInstanceFactory\<close> (\<open>11\<close>) to \<open>20\<close>,
  the child binds it to \<open>21\<close>, both with Transient lifetime. \<open>fx_root\<close> is the state
  after \<^verbatim>\<open>InitServices\<close> of the root, \<open>fx_child\<close> the state after \<^verbatim>\<open>InitServices\<close> of
  the child that follows.
\<close>

definition fx_env :: class_env where
  "fx_env =
     \<lparr>IsInterface = (\<lambda>c. c = 11),
      NativeInit = (\<lambda>c. None),
      BlueprintInit = (\<lambda>c. None),
      FactoryIsClassSupported = (\<lambda>fc T. fc = 10 \<or> ((fc = 20 \<or> fc = 22) \<and> T = 7)),
      FactoryCreateNull = (\<lambda>fc T. False),
      DefaultInstanceFactory = 0,
      UInstanceFactory_StaticClass = 11\<rparr>"

definition fx_start :: di_state where
  "fx_start =
     AddRegistration 1 11 (Some 21) 1
       (AddRegistration 0 11 (Some 20) 0
          \<lparr>Storages = (\<lambda>i. ex_storage),
           Handlers = [Transient, Transient],
           Objects = [\<lparr>ObjClass = 10, ObjOuter = 0\<rparr>],
           Trace = []\<rparr>)"

definition fx_root :: di_state where
  "fx_root = (case InitServices 0 fx_env 0 fx_start of Some (Inr (u, st)) \<Rightarrow> st | _ \<Rightarrow> fx_start)"

definition fx_child :: di_state where
  "fx_child = (case InitServices 0 fx_env 1 fx_root of Some (Inr (u, st)) \<Rightarrow> st | _ \<Rightarrow> fx_root)"

text \<open>
  A root alone that binds \<^verbatim>\<open>UInstanceFactory\<close> to class \<open>20\<close> and then to class \<open>22\<close>,
  a second factory class that supports class \<open>7\<close> only; \<open>fx_two\<close> is the state after its
  \<^verbatim>\<open>InitServices\<close>.
\<close>

definition fx_two :: di_state where
  "fx_two =
     (case InitServices 0 fx_env 0
             (AddRegistration 0 11 (Some 22) 1
                (AddRegistration 0 11 (Some 20) 0
                   \<lparr>Storages = (\<lambda>i. ex_storage),
                    Handlers = [Transient, Transient],
                    Objects = [\<lparr>ObjClass = 10, ObjOuter = 0\<rparr>],
                    Trace = []\<rparr>)) of
        Some (Inr (u, st)) \<Rightarrow> st
      | _ \<Rightarrow> fx_start)"

section \<open>Unfolding the example\<close>

lemmas ex_defs = ex_env_def ex_state_def ex_empty_def ex_storage_def AddRegistration_def
  set_Registrations_def Find_def

lemmas run_defs = ResolveAll_def AppendLocal_def ResolveImpl_def Factory_Create_def GetClass_def
  Inject_def CallNativeInit_def CallBlueprintInit_def Factory_FinalizeCreation_def
  LifetimeHandler_Set_def AutoRegister_def AutoRegistered_def Contains_def
  sizeof_TObjectPtr_def sizeof_FScriptInterface_def

lemmas fx_defs = fx_env_def fx_start_def fx_root_def fx_child_def fx_two_def ex_storage_def AddRegistration_def
  set_Registrations_def Find_def InitServices_def AddDefaultFactory_def set_InstanceFactories_def

section \<open>Frame properties\<close>

lemma frame_refl: "frame st st"
  by (simp add: frame_def)

lemma frame_trans: "frame st st1 \<Longrightarrow> frame st1 st2 \<Longrightarrow> frame st st2"
  unfolding frame_def by (elim conjE exE) (auto)

lemma Find_update_other: "K \<noteq> T \<Longrightarrow> Find (AList.update T v regs) K = Find regs K"
  by (simp add: Find_def update_conv')

lemma Find_update_same: "Find (AList.update T v regs) T = Some v"
  by (simp add: Find_def update_conv')

lemma Find_update_fresh:
  "Find regs T = None \<Longrightarrow> Find regs K = Some rs \<Longrightarrow> Find (AList.update T v regs) K = Some rs"
  by (cases "K = T") (simp_all add: Find_update_other)

lemma GetResolver_frame: "GetResolver env s T st = Inr (r, st') \<Longrightarrow> frame st st'"
proof (induction s)
  case 0
  then show ?case
    by (auto simp: frame_def AutoRegister_def set_Registrations_def Find_update_fresh
             split: option.splits if_splits)
next
  case (Suc p)
  then show ?case
    by (auto simp: frame_refl split: option.splits if_splits)
qed

lemma Factory_Create_frame: "Factory_Create env f outer c st = Inr (x, st') \<Longrightarrow> frame st st'"
  by (auto simp: Factory_Create_def frame_def split: option.splits if_splits)

lemma Factory_FinalizeCreation_frame: "frame st (Factory_FinalizeCreation f x st)"
  by (simp add: Factory_FinalizeCreation_def frame_def)

lemma LifetimeHandler_Set_frame: "frame st (LifetimeHandler_Set h x st)"
  by (simp add: LifetimeHandler_Set_def frame_def)

lemma ResolveDependencies_frame:
  "rec_frame rec \<Longrightarrow> ResolveDependencies rec s Ts args st = Some (Inr (args', st')) \<Longrightarrow> frame st st'"
proof (induction Ts arbitrary: args st)
  case Nil
  then show ?case by (simp add: frame_refl)
next
  case (Cons T Ts)
  from Cons.prems(2) obtain x st1 where
    r: "rec s T st = Some (Inr (x, st1))" and
    k: "ResolveDependencies rec s Ts (args @ [x]) st1 = Some (Inr (args', st'))"
    by (auto split: option.splits sum.splits)
  from r Cons.prems(1) have "frame st st1" by (auto simp: rec_frame_def)
  moreover from Cons.IH[OF Cons.prems(1) k] have "frame st1 st'" .
  ultimately show ?case by (rule frame_trans)
qed

lemma PrepareArguments_frame:
  "rec_frame rec \<Longrightarrow> PrepareArguments rec s ps args cur st = Some (Inr (res, st')) \<Longrightarrow> frame st st'"
proof (induction rec s ps args cur st rule: PrepareArguments.induct)
  case (1 rec s args cur st)
  then show ?case by (simp add: frame_refl)
next
  case (2 rec s parm PropertyClass ps args cur st)
  show ?case
  proof (cases parm)
    case True
    with "2.prems"(2) obtain x st1 where
      r: "rec s PropertyClass st = Some (Inr (x, st1))" and
      k: "PrepareArguments rec s ps (args @ [x]) (cur + sizeof_TObjectPtr) st1 = Some (Inr (res, st'))"
      by (auto split: option.splits sum.splits)
    from r "2.prems"(1) have "frame st st1" by (auto simp: rec_frame_def)
    moreover from "2.IH"(1)[OF True r refl refl "2.prems"(1) k] have "frame st1 st'" .
    ultimately show ?thesis by (rule frame_trans)
  next
    case False
    with "2.prems" "2.IH"(2) show ?thesis by simp
  qed
next
  case (3 rec s parm InterfaceClass ps args cur st)
  show ?case
  proof (cases parm)
    case True
    with "3.prems"(2) obtain x st1 where
      r: "rec s InterfaceClass st = Some (Inr (x, st1))" and
      k: "PrepareArguments rec s ps (args @ [x]) (cur + sizeof_FScriptInterface) st1 = Some (Inr (res, st'))"
      by (auto split: option.splits sum.splits)
    from r "3.prems"(1) have "frame st st1" by (auto simp: rec_frame_def)
    moreover from "3.IH"(1)[OF True r refl refl "3.prems"(1) k] have "frame st1 st'" .
    ultimately show ?thesis by (rule frame_trans)
  next
    case False
    with "3.prems" "3.IH"(2) show ?thesis by simp
  qed
next
  case (4 rec s parm ps args cur st)
  then show ?case by simp
qed

lemma frame_Trace_append: "frame st st1 \<Longrightarrow> frame st (st1\<lparr>Trace := Trace st1 @ t\<rparr>)"
  by (auto simp: frame_def)

lemma CallNativeInit_frame:
  "rec_frame rec \<Longrightarrow> CallNativeInit rec s x nf st = Some (Inr (u, st')) \<Longrightarrow> frame st st'"
  by (auto simp: CallNativeInit_def frame_refl split: option.splits sum.splits
           dest!: ResolveDependencies_frame intro: frame_Trace_append)

lemma CallBlueprintInit_frame:
  "rec_frame rec \<Longrightarrow> CallBlueprintInit rec s x bf st = Some (Inr (u, st')) \<Longrightarrow> frame st st'"
  by (auto simp: CallBlueprintInit_def frame_refl split: option.splits sum.splits if_splits
           dest!: PrepareArguments_frame intro: frame_Trace_append)

lemma Inject_returns:
  assumes "Inject rec env s x st = Some (Inr (b, st'))"
  shows "\<exists>c st1. GetClass st x = Some c \<and>
           CallNativeInit rec s x (NativeInit env c) st = Some (Inr ((), st1)) \<and>
           CallBlueprintInit rec s x (BlueprintInit env c) st1 = Some (Inr ((), st')) \<and>
           b = CanInject env c"
proof (cases "GetClass st x")
  case None
  with assms show ?thesis by (simp add: Inject_def)
next
  case (Some c)
  note c = this
  show ?thesis
  proof (cases "CallNativeInit rec s x (NativeInit env c) st")
    case None
    with assms c show ?thesis by (simp add: Inject_def)
  next
    case (Some a)
    note a = this
    show ?thesis
    proof (cases a)
      case (Inl e)
      with assms c a show ?thesis by (simp add: Inject_def)
    next
      case (Inr p)
      obtain u st1 where p: "p = (u, st1)" by (cases p)
      show ?thesis
      proof (cases "CallBlueprintInit rec s x (BlueprintInit env c) st1")
        case None
        with assms c a Inr p show ?thesis by (simp add: Inject_def)
      next
        case (Some a2)
        note a2 = this
        show ?thesis
        proof (cases a2)
          case (Inl e)
          with assms c a Inr p a2 show ?thesis by (simp add: Inject_def)
        next
          case (Inr q)
          obtain v st2 where q: "q = (v, st2)" by (cases q)
          from assms c a \<open>a = Inr p\<close> p a2 Inr q
          have "st2 = st'" and "b = CanInject env c"
            by (simp_all add: Inject_def CanInject_def)
          with c a \<open>a = Inr p\<close> p a2 Inr q show ?thesis by simp
        qed
      qed
    qed
  qed
qed

lemma Inject_frame:
  assumes rf: "rec_frame rec" and inj: "Inject rec env s x st = Some (Inr (b, st'))"
  shows "frame st st'"
proof -
  from Inject_returns[OF inj] obtain c st1 where
    n: "CallNativeInit rec s x (NativeInit env c) st = Some (Inr ((), st1))" and
    p: "CallBlueprintInit rec s x (BlueprintInit env c) st1 = Some (Inr ((), st'))"
    by blast
  from CallNativeInit_frame[OF rf n] CallBlueprintInit_frame[OF rf p]
  show "frame st st'" by (rule frame_trans)
qed

lemma ResolveImpl_frame:
  assumes "rec_frame rec" and "ResolveImpl rec env s r st = Some (Inr (x, st'))"
  shows "frame st st'"
proof (cases "handler_Get (Handlers st ! LifetimeHandler r)")
  case (Some y)
  with assms(2) show ?thesis
    by (auto simp: ResolveImpl_def frame_refl split: if_splits)
next
  case None
  with assms(2) obtain c f st1 b st2 where
    "Factory_Create env f (OuterForNewObject (Storages st s)) c st = Inr (x, st1)"
    "Inject rec env s x st1 = Some (Inr (b, st2))"
    "st' = LifetimeHandler_Set (LifetimeHandler r) x (Factory_FinalizeCreation f x st2)"
    by (auto simp: ResolveImpl_def split: if_splits option.splits sum.splits)
  then show ?thesis
    using assms(1)
    by (meson Factory_Create_frame Inject_frame Factory_FinalizeCreation_frame
              LifetimeHandler_Set_frame frame_trans)
qed

lemma Resolve_frame: "rec_frame (Resolve n env)"
proof (induction n)
  case 0
  show ?case by (simp add: rec_frame_def)
next
  case (Suc n)
  show ?case
    unfolding rec_frame_def
  proof (intro allI impI)
    fix s T st x st'
    assume "Resolve (Suc n) env s T st = Some (Inr (x, st'))"
    then obtain r st1 where
      "GetResolver env s T st = Inr (r, st1)"
      "ResolveImpl (Resolve n env) env s r st1 = Some (Inr (x, st'))"
      by (auto split: sum.splits)
    then show "frame st st'"
      using Suc by (meson GetResolver_frame ResolveImpl_frame frame_trans)
  qed
qed

section \<open>The depth bound\<close>

lemma rec_leD: "rec_le rec rec' \<Longrightarrow> rec s T st = Some r \<Longrightarrow> rec' s T st = Some r"
  by (simp add: rec_le_def)

lemma ResolveDependencies_mono:
  "rec_le rec rec' \<Longrightarrow> ResolveDependencies rec s Ts args st = Some r \<Longrightarrow>
   ResolveDependencies rec' s Ts args st = Some r"
proof (induction Ts arbitrary: args st)
  case Nil
  then show ?case by simp
next
  case (Cons T Ts)
  from Cons.prems(2) obtain a where a: "rec s T st = Some a"
    by (cases "rec s T st") auto
  from rec_leD[OF Cons.prems(1) a] have a': "rec' s T st = Some a" .
  show ?case
  proof (cases a)
    case (Inl e)
    with a a' Cons.prems(2) show ?thesis by simp
  next
    case (Inr q)
    obtain x st1 where q: "q = (x, st1)" by (cases q)
    from a Inr q Cons.prems(2)
    have "ResolveDependencies rec s Ts (args @ [x]) st1 = Some r" by simp
    from Cons.IH[OF Cons.prems(1) this] a' Inr q show ?thesis by simp
  qed
qed

lemma PrepareArguments_step_mono:
  assumes le: "rec_le rec rec'"
      and ih: "\<And>args cur st. PrepareArguments rec s ps args cur st = Some r \<Longrightarrow>
                 PrepareArguments rec' s ps args cur st = Some r"
      and run: "(case rec s T st of
                   None \<Rightarrow> None
                 | Some (Inl e) \<Rightarrow> Some (Inl e)
                 | Some (Inr (Result, st1)) \<Rightarrow> PrepareArguments rec s ps (args @ [Result]) (cur + k) st1)
                = Some r"
  shows "(case rec' s T st of
            None \<Rightarrow> None
          | Some (Inl e) \<Rightarrow> Some (Inl e)
          | Some (Inr (Result, st1)) \<Rightarrow> PrepareArguments rec' s ps (args @ [Result]) (cur + k) st1)
         = Some r"
proof -
  from run obtain a where a: "rec s T st = Some a"
    by (cases "rec s T st") auto
  from rec_leD[OF le a] have a': "rec' s T st = Some a" .
  show ?thesis
  proof (cases a)
    case (Inl e)
    with a a' run show ?thesis by simp
  next
    case (Inr q)
    obtain x st1 where q: "q = (x, st1)" by (cases q)
    from a Inr q run have "PrepareArguments rec s ps (args @ [x]) (cur + k) st1 = Some r" by simp
    from ih[OF this] a' Inr q show ?thesis by simp
  qed
qed

lemma PrepareArguments_mono:
  "rec_le rec rec' \<Longrightarrow> PrepareArguments rec s ps args cur st = Some r \<Longrightarrow>
   PrepareArguments rec' s ps args cur st = Some r"
proof (induction ps arbitrary: args cur st)
  case Nil
  then show ?case by simp
next
  case (Cons p ps)
  note ih = Cons.IH[OF Cons.prems(1)]
  show ?case
  proof (cases p)
    case (FObjectProperty parm c)
    show ?thesis
    proof (cases parm)
      case True
      with Cons.prems(2) FObjectProperty
      show ?thesis
        using PrepareArguments_step_mono[OF Cons.prems(1) ih, where T = c and st = st and args = args and cur = cur and k = sizeof_TObjectPtr]
        by simp
    next
      case False
      with Cons.prems(2) FObjectProperty ih show ?thesis by simp
    qed
  next
    case (FInterfaceProperty parm c)
    show ?thesis
    proof (cases parm)
      case True
      with Cons.prems(2) FInterfaceProperty
      show ?thesis
        using PrepareArguments_step_mono[OF Cons.prems(1) ih, where T = c and st = st and args = args and cur = cur and k = sizeof_FScriptInterface]
        by simp
    next
      case False
      with Cons.prems(2) FInterfaceProperty ih show ?thesis by simp
    qed
  next
    case (FOtherProperty parm)
    with Cons.prems(2) ih show ?thesis by simp
  qed
qed

lemma CallNativeInit_mono:
  assumes "rec_le rec rec'" and "CallNativeInit rec s x nf st = Some r"
  shows "CallNativeInit rec' s x nf st = Some r"
proof (cases nf)
  case None
  with assms(2) show ?thesis by (simp add: CallNativeInit_def)
next
  case (Some deps)
  with assms(2) obtain a where a: "ResolveDependencies rec s deps [] st = Some a"
    by (cases "ResolveDependencies rec s deps [] st") (auto simp: CallNativeInit_def)
  from ResolveDependencies_mono[OF assms(1) a] a assms(2) Some show ?thesis
    by (simp add: CallNativeInit_def)
qed

lemma CallBlueprintInit_mono:
  assumes "rec_le rec rec'" and "CallBlueprintInit rec s x bf st = Some r"
  shows "CallBlueprintInit rec' s x bf st = Some r"
proof (cases bf)
  case None
  with assms(2) show ?thesis by (simp add: CallBlueprintInit_def)
next
  case (Some fn)
  with assms(2) obtain a where a: "PrepareArguments rec s (Properties fn) [] 0 st = Some a"
    by (cases "PrepareArguments rec s (Properties fn) [] 0 st") (auto simp: CallBlueprintInit_def)
  from PrepareArguments_mono[OF assms(1) a] a assms(2) Some show ?thesis
    by (simp add: CallBlueprintInit_def)
qed

lemma Inject_mono:
  assumes le: "rec_le rec rec'" and run: "Inject rec env s x st = Some r"
  shows "Inject rec' env s x st = Some r"
proof (cases "GetClass st x")
  case None
  with run show ?thesis by (simp add: Inject_def)
next
  case (Some c)
  with run obtain a where a: "CallNativeInit rec s x (NativeInit env c) st = Some a"
    by (cases "CallNativeInit rec s x (NativeInit env c) st") (auto simp: Inject_def)
  note a' = CallNativeInit_mono[OF le a]
  show ?thesis
  proof (cases a)
    case (Inl e)
    with Some a a' run show ?thesis by (simp add: Inject_def)
  next
    case (Inr q)
    obtain u st1 where q: "q = (u, st1)" by (cases q)
    from Some a Inr q run obtain b where
      b: "CallBlueprintInit rec s x (BlueprintInit env c) st1 = Some b"
      by (cases "CallBlueprintInit rec s x (BlueprintInit env c) st1") (auto simp: Inject_def)
    note b' = CallBlueprintInit_mono[OF le b]
    from Some a a' Inr q b b' run show ?thesis by (simp add: Inject_def)
  qed
qed

lemma ResolveImpl_mono:
  assumes le: "rec_le rec rec'" and run: "ResolveImpl rec env s r0 st = Some r"
  shows "ResolveImpl rec' env s r0 st = Some r"
proof (cases "LifetimeHandler r0 < length (Handlers st) \<and>
              handler_Get (Handlers st ! LifetimeHandler r0) = None")
  case False
  with run show ?thesis by (auto simp: ResolveImpl_def split: if_splits)
next
  case True
  note h = this
  show ?thesis
  proof (cases "EffectiveClass r0")
    case None
    with h run show ?thesis by (simp add: ResolveImpl_def)
  next
    case (Some c)
    note c = this
    show ?thesis
    proof (cases "FindInstanceFactory env s c st")
      case (Inl e)
      with h c run show ?thesis by (simp add: ResolveImpl_def)
    next
      case (Inr f)
      note f = this
      show ?thesis
      proof (cases "Factory_Create env f (OuterForNewObject (Storages st s)) c st")
        case (Inl e)
        with h c f run have "r = Inl e" by (simp add: ResolveImpl_def)
        with h c f Inl show ?thesis by (simp add: ResolveImpl_def)
      next
        case (Inr q)
        obtain x st1 where q: "q = (x, st1)" by (cases q)
        from h c f Inr q run obtain a where a: "Inject rec env s x st1 = Some a"
          by (cases "Inject rec env s x st1") (auto simp: ResolveImpl_def)
        from Inject_mono[OF le a] a h c f Inr q run show ?thesis
          by (simp add: ResolveImpl_def)
      qed
    qed
  qed
qed

lemma Resolve_fuel_step: "rec_le (Resolve n env) (Resolve (Suc n) env)"
proof (induction n)
  case 0
  show ?case by (simp add: rec_le_def)
next
  case (Suc n)
  show ?case
    unfolding rec_le_def
  proof (intro allI impI)
    fix s T st r
    assume a: "Resolve (Suc n) env s T st = Some r"
    show "Resolve (Suc (Suc n)) env s T st = Some r"
    proof (cases "GetResolver env s T st")
      case (Inl e)
      with a show ?thesis by simp
    next
      case (Inr q)
      obtain r0 st1 where q: "q = (r0, st1)" by (cases q)
      from a Inr q have "ResolveImpl (Resolve n env) env s r0 st1 = Some r" by simp
      from ResolveImpl_mono[OF Suc this] Inr q show ?thesis by simp
    qed
  qed
qed

lemma Resolve_fuel_mono:
  "n \<le> m \<Longrightarrow> Resolve n env s T st = Some r \<Longrightarrow> Resolve m env s T st = Some r"
proof (induction m)
  case 0
  then show ?case by simp
next
  case (Suc m)
  show ?case
  proof (cases "n = Suc m")
    case True
    with Suc.prems show ?thesis by simp
  next
    case False
    with Suc.prems have "n \<le> m" by simp
    from Suc.IH[OF this Suc.prems(2)] have "Resolve m env s T st = Some r" .
    from rec_leD[OF Resolve_fuel_step this] show ?thesis .
  qed
qed

section \<open>Lookup of bindings\<close>

lemma Find_AddRegistration:
  "Find (Registrations (Storages (AddRegistration s T c h st) s)) T =
     Some ((case Find (Registrations (Storages st s)) T of None \<Rightarrow> [] | Some rs \<Rightarrow> rs)
           @ [\<lparr>EffectiveClass = c, LifetimeHandler = h\<rparr>])"
  by (simp add: AddRegistration_def set_Registrations_def Let_def Find_update_same)

lemma GetResolver_local:
  "Find (Registrations (Storages st s)) T = Some rs \<Longrightarrow> rs \<noteq> [] \<Longrightarrow>
   GetResolver env s T st = Inr (last rs, st)"
  by (cases s) simp_all

text \<open>
  Claim C1. When the local table of a storage has a non-empty array for a type,
  \<^verbatim>\<open>GetResolver\<close> returns its last element and leaves the state alone, so \<^verbatim>\<open>Resolve\<close>
  is \<^verbatim>\<open>ResolveImpl\<close> of that last binding, whatever the length of the array. Since
  \<^verbatim>\<open>AddRegistration\<close> appends, the binding registered last is the one used.
\<close>

theorem Resolve_most_recent_binding:
  "(Find (Registrations (Storages st s)) T = Some rs \<and> rs \<noteq> [] \<longrightarrow>
      GetResolver env s T st = Inr (last rs, st) \<and>
      Resolve (Suc n) env s T st = ResolveImpl (Resolve n env) env s (last rs) st) \<and>
   GetResolver env s T (AddRegistration s T c h st) =
      Inr (\<lparr>EffectiveClass = c, LifetimeHandler = h\<rparr>, AddRegistration s T c h st) \<and>
   Resolve (Suc n) env s T (AddRegistration s T c h st) =
      ResolveImpl (Resolve n env) env s \<lparr>EffectiveClass = c, LifetimeHandler = h\<rparr>
        (AddRegistration s T c h st)"
proof -
  have a: "GetResolver env s T (AddRegistration s T c h st) =
      Inr (\<lparr>EffectiveClass = c, LifetimeHandler = h\<rparr>, AddRegistration s T c h st)"
    by (simp add: GetResolver_local[OF Find_AddRegistration])
  show ?thesis
    using a by (auto simp: GetResolver_local)
qed

theorem Resolve_most_recent_binding_witness:
  "Find (Registrations (Storages ex_state 1)) 1 =
     Some [\<lparr>EffectiveClass = Some 3, LifetimeHandler = 1\<rparr>,
           \<lparr>EffectiveClass = Some 4, LifetimeHandler = 2\<rparr>] \<and>
   GetResolver ex_env 1 1 ex_state = Inr (\<lparr>EffectiveClass = Some 4, LifetimeHandler = 2\<rparr>, ex_state)"
  using Resolve_most_recent_binding[where st = ex_state and s = 1 and T = 1 and env = ex_env
      and rs = "[\<lparr>EffectiveClass = Some 3, LifetimeHandler = 1\<rparr>,
                 \<lparr>EffectiveClass = Some 4, LifetimeHandler = 2\<rparr>]"]
  by (simp add: ex_defs)

text \<open>
  Claim C2. In a storage that has a parent, a non-empty local array for the type
  decides the lookup alone: every state that agrees on this storage gives the same
  binding, a member of the local array, whatever the ancestors have registered.
\<close>

theorem GetResolver_shadows_parent:
  "Find (Registrations (Storages st (Suc p))) T = Some rs \<Longrightarrow> rs \<noteq> [] \<Longrightarrow>
   Storages st' (Suc p) = Storages st (Suc p) \<Longrightarrow>
   GetResolver env (Suc p) T st' = Inr (last rs, st') \<and> last rs \<in> set rs \<and>
   Resolve (Suc n) env (Suc p) T st' = ResolveImpl (Resolve n env) env (Suc p) (last rs) st'"
  by simp

theorem GetResolver_shadows_parent_witness:
  "Find (Registrations (Storages ex_state (Suc 0))) 1 =
     Some [\<lparr>EffectiveClass = Some 3, LifetimeHandler = 1\<rparr>,
           \<lparr>EffectiveClass = Some 4, LifetimeHandler = 2\<rparr>] \<and>
   Storages (set_Registrations 0 [] ex_state) (Suc 0) = Storages ex_state (Suc 0) \<and>
   GetResolver ex_env (Suc 0) 1 (set_Registrations 0 [] ex_state) =
     Inr (\<lparr>EffectiveClass = Some 4, LifetimeHandler = 2\<rparr>, set_Registrations 0 [] ex_state)"
  using GetResolver_shadows_parent[where st = ex_state and p = 0 and T = 1 and env = ex_env
      and st' = "set_Registrations 0 [] ex_state"
      and rs = "[\<lparr>EffectiveClass = Some 3, LifetimeHandler = 1\<rparr>,
                 \<lparr>EffectiveClass = Some 4, LifetimeHandler = 2\<rparr>]"]
  by (simp add: ex_defs)

lemma TotalResolvers_acc: "TotalResolvers s T st k = k + TotalResolvers s T st 0"
proof (induction s arbitrary: k)
  case 0
  show ?case by simp
next
  case (Suc p)
  show ?case
    using Suc[of "k + (case Find (Registrations (Storages st (Suc p))) T of None \<Rightarrow> 0 | Some rs \<Rightarrow> length rs)"]
          Suc[of "(case Find (Registrations (Storages st (Suc p))) T of None \<Rightarrow> 0 | Some rs \<Rightarrow> length rs)"]
    by simp
qed

lemma not_registered_Find: "\<not> IsRegistered s T st \<Longrightarrow> i \<le> s \<Longrightarrow> Find (Registrations (Storages st i)) T = None"
proof (induction s)
  case 0
  then show ?case by (simp add: Contains_def split: option.splits)
next
  case (Suc p)
  then show ?case
    by (cases "i = Suc p") (auto simp: Contains_def split: option.splits if_splits)
qed

lemma not_registered_total: "\<not> IsRegistered s T st \<Longrightarrow> TotalResolvers s T st 0 = 0"
proof (induction s)
  case 0
  then show ?case by (simp add: Contains_def split: option.splits)
next
  case (Suc p)
  then show ?case by (simp add: Contains_def split: option.splits if_splits)
qed

text \<open>
  Claim C6. When the count over the whole chain is zero, in particular when the type is
  registered nowhere in the chain, \<^verbatim>\<open>ResolveAll\<close> fails with "type is not registered",
  for every type metadata (interface or not) and before any change of state.
\<close>

theorem ResolveAll_unregistered_fatal:
  "(TotalResolvers s T st 0 = 0 \<longrightarrow> ResolveAll n env s T st = Some (Inl (TypeNotRegistered T))) \<and>
   (\<not> IsRegistered s T st \<longrightarrow> ResolveAll n env s T st = Some (Inl (TypeNotRegistered T)))"
  by (simp add: ResolveAll_def not_registered_total)

theorem ResolveAll_unregistered_fatal_witness:
  "TotalResolvers 1 7 ex_state 0 = 0 \<and> \<not> IsRegistered 1 7 ex_state \<and> \<not> IsInterface ex_env 7 \<and>
   ResolveAll 2 ex_env 1 7 ex_state = Some (Inl (TypeNotRegistered 7))"
  using ResolveAll_unregistered_fatal[of 1 7 ex_state 2 ex_env]
  by (simp add: ex_defs Contains_def)

lemma GetResolver_unregistered:
  "\<not> IsRegistered s T st \<Longrightarrow>
   GetResolver env s T st =
     (if IsInterface env T then Inl (CannotAutoRegister T)
      else Inr (AutoRegistered T st, AutoRegister T st))"
proof (induction s)
  case 0
  then show ?case
    by (simp add: Contains_def split: option.splits)
next
  case (Suc p)
  then show ?case by (simp add: Contains_def split: option.splits if_splits)
qed

lemma Find_AutoRegister: "Find (Registrations (Storages (AutoRegister T st) 0)) T = Some [AutoRegistered T st]"
  by (simp add: AutoRegister_def set_Registrations_def Find_update_same)

lemma Storages_AutoRegister_Suc: "Storages (AutoRegister T st) (Suc i) = Storages st (Suc i)"
  by (simp add: AutoRegister_def set_Registrations_def)

lemma Find_root_GetResolver:
  "Find (Registrations (Storages st 0)) T = Some rs \<Longrightarrow> rs \<noteq> [] \<Longrightarrow>
   \<forall>i. 0 < i \<and> i \<le> s \<longrightarrow> Find (Registrations (Storages st i)) T = None \<Longrightarrow>
   GetResolver env s T st = Inr (last rs, st)"
  by (induction s) simp_all

lemma Find_root_IsRegistered:
  "Find (Registrations (Storages st 0)) T = Some rs \<Longrightarrow> IsRegistered i T st"
  by (induction i) (simp_all add: Contains_def)

lemma GetResolver_after_AutoRegister:
  assumes "\<not> IsRegistered s T st"
  shows "GetResolver env s T (AutoRegister T st) = Inr (AutoRegistered T st, AutoRegister T st)"
proof -
  have "\<forall>i. 0 < i \<and> i \<le> s \<longrightarrow> Find (Registrations (Storages (AutoRegister T st) i)) T = None"
  proof (intro allI impI)
    fix i assume i: "0 < i \<and> i \<le> s"
    then obtain j where "i = Suc j" by (cases i) auto
    with i not_registered_Find[OF assms, of i] show "Find (Registrations (Storages (AutoRegister T st) i)) T = None"
      by (simp add: Storages_AutoRegister_Suc)
  qed
  from Find_root_GetResolver[OF Find_AutoRegister _ this] show ?thesis by simp
qed

section \<open>Collect-all as one resolution per binding of the chain\<close>

lemma AppendResolvers_ResolveEach:
  "AppendResolvers rec env s rs Data st = ResolveEach rec env (map (Pair s) rs) Data st"
  by (induction rs arbitrary: Data st) (auto split: option.splits sum.splits)

lemma AppendLocal_ResolveEach:
  "AppendLocal rec env s T Data st = ResolveEach rec env (map (Pair s) (LocalResolvers s T st)) Data st"
  by (simp add: AppendLocal_def LocalResolvers_def AppendResolvers_ResolveEach split: option.splits)

lemma ResolveEach_append:
  "ResolveEach rec env (xs @ ys) Data st =
     (case ResolveEach rec env xs Data st of
        None \<Rightarrow> None
      | Some (Inl e) \<Rightarrow> Some (Inl e)
      | Some (Inr (Data1, st1)) \<Rightarrow> ResolveEach rec env ys Data1 st1)"
proof (induction xs arbitrary: Data st)
  case Nil
  show ?case by simp
next
  case (Cons b bs)
  obtain s r where b: "b = (s, r)" by (cases b)
  show ?case using Cons by (simp add: b split: option.splits sum.splits)
qed

lemma ResolveEach_frame:
  "rec_frame rec \<Longrightarrow> ResolveEach rec env bs Data st = Some (Inr (Data', st')) \<Longrightarrow> frame st st'"
proof (induction bs arbitrary: Data st)
  case Nil
  then show ?case by (simp add: frame_refl)
next
  case (Cons b bs)
  obtain s r where b: "b = (s, r)" by (cases b)
  from Cons.prems(2) obtain x st1 where
    r: "ResolveImpl rec env s r st = Some (Inr (x, st1))" and
    k: "ResolveEach rec env bs (Data @ [x]) st1 = Some (Inr (Data', st'))"
    by (auto simp: b split: option.splits sum.splits)
  from ResolveImpl_frame[OF Cons.prems(1) r] Cons.IH[OF Cons.prems(1) k]
  show ?case by (rule frame_trans)
qed

lemma frame_LocalResolvers_Suc:
  "frame st st' \<Longrightarrow> LocalResolvers (Suc p) T st' = LocalResolvers (Suc p) T st"
  by (simp add: frame_def LocalResolvers_def)

lemma AppendObjectsCollection_ResolveEach:
  "rec_frame rec \<Longrightarrow>
   AppendObjectsCollection rec env s T Data st = ResolveEach rec env (AllResolvers s T st) Data st"
proof (induction s arbitrary: Data)
  case 0
  show ?case by (simp add: AppendLocal_ResolveEach)
next
  case (Suc p)
  show ?case
  proof (cases "ResolveEach rec env (AllResolvers p T st) Data st")
    case None
    with Suc show ?thesis by (simp add: ResolveEach_append)
  next
    case (Some a)
    show ?thesis
    proof (cases a)
      case (Inl e)
      with Some Suc show ?thesis by (simp add: ResolveEach_append)
    next
      case (Inr q)
      obtain Data1 st1 where q: "q = (Data1, st1)" by (cases q)
      from Some Inr q have e: "ResolveEach rec env (AllResolvers p T st) Data st = Some (Inr (Data1, st1))"
        by simp
      from ResolveEach_frame[OF Suc.prems e] have "frame st st1" .
      then have "LocalResolvers (Suc p) T st1 = LocalResolvers (Suc p) T st"
        by (rule frame_LocalResolvers_Suc)
      with e Suc show ?thesis
        by (simp add: ResolveEach_append AppendLocal_ResolveEach)
    qed
  qed
qed

lemma length_AllResolvers: "length (AllResolvers s T st) = TotalResolvers s T st 0"
proof (induction s)
  case 0
  show ?case by (simp add: LocalResolvers_def split: option.splits)
next
  case (Suc p)
  then show ?case
    using TotalResolvers_acc[of p T st "length (LocalResolvers (Suc p) T st)"]
    by (simp add: LocalResolvers_def split: option.splits)
qed

lemma ResolveEach_results:
  "ResolveEach rec env bs Data st = Some (Inr (Data', st')) \<Longrightarrow>
   \<exists>R. Data' = Data @ R \<and> length R = length bs \<and>
     (\<forall>i<length bs. \<exists>sti sti'.
        ResolveImpl rec env (fst (bs ! i)) (snd (bs ! i)) sti = Some (Inr (R ! i, sti')))"
proof (induction bs arbitrary: Data st)
  case Nil
  then show ?case by simp
next
  case (Cons b bs)
  obtain s r where b: "b = (s, r)" by (cases b)
  from Cons.prems obtain x st1 where
    r: "ResolveImpl rec env s r st = Some (Inr (x, st1))" and
    k: "ResolveEach rec env bs (Data @ [x]) st1 = Some (Inr (Data', st'))"
    by (auto simp: b split: option.splits sum.splits)
  from Cons.IH[OF k] obtain R where
    R: "Data' = (Data @ [x]) @ R" "length R = length bs"
       "\<forall>i<length bs. \<exists>sti sti'.
          ResolveImpl rec env (fst (bs ! i)) (snd (bs ! i)) sti = Some (Inr (R ! i, sti'))"
    by blast
  have "\<forall>i<length (b # bs). \<exists>sti sti'.
          ResolveImpl rec env (fst ((b # bs) ! i)) (snd ((b # bs) ! i)) sti = Some (Inr ((x # R) ! i, sti'))"
  proof (intro allI impI)
    fix i assume "i < length (b # bs)"
    then show "\<exists>sti sti'. ResolveImpl rec env (fst ((b # bs) ! i)) (snd ((b # bs) ! i)) sti = Some (Inr ((x # R) ! i, sti'))"
      using r R(3) by (cases i) (auto simp: b)
  qed
  with R(1,2) show ?case
    by (intro exI[of _ "x # R"]) simp
qed

lemma ResolveAll_ResolveEach:
  "ResolveAll n env s T st =
     (if AllResolvers s T st = [] then Some (Inl (TypeNotRegistered T))
      else (case ResolveEach (Resolve n env) env (AllResolvers s T st) [] st of
              None \<Rightarrow> None
            | Some (Inl e) \<Rightarrow> Some (Inl e)
            | Some (Inr (Data, st1)) \<Rightarrow>
                Some (Inr (\<lparr>Written = Data, Num = length (AllResolvers s T st)\<rparr>, st1))))"
  using length_AllResolvers[of s T st]
  by (auto simp: ResolveAll_def Let_def AppendObjectsCollection_ResolveEach[OF Resolve_frame]
           split: option.splits sum.splits)

text \<open>
  Claim C3. \<^verbatim>\<open>ResolveAll\<close> is one \<^verbatim>\<open>ResolveImpl\<close> per binding of \<open>AllResolvers\<close>: the
  bindings of the whole chain, root first and the requesting storage last, each
  storage's bindings in registration order. When it returns, the number of pointers
  written equals the count computed beforehand, and the \<open>i\<close>-th pointer is the result
  of resolving the \<open>i\<close>-th binding.
\<close>

theorem ResolveAll_whole_chain_in_order:
  "ResolveAll n env s T st =
     (if AllResolvers s T st = [] then Some (Inl (TypeNotRegistered T))
      else (case ResolveEach (Resolve n env) env (AllResolvers s T st) [] st of
              None \<Rightarrow> None
            | Some (Inl e) \<Rightarrow> Some (Inl e)
            | Some (Inr (Data, st1)) \<Rightarrow>
                Some (Inr (\<lparr>Written = Data, Num = length (AllResolvers s T st)\<rparr>, st1)))) \<and>
   length (AllResolvers s T st) = TotalResolvers s T st 0 \<and>
   (\<forall>c st'. ResolveAll n env s T st = Some (Inr (c, st')) \<longrightarrow>
      Num c = TotalResolvers s T st 0 \<and> length (Written c) = Num c \<and>
      (\<forall>i<length (AllResolvers s T st). \<exists>sti sti'.
         ResolveImpl (Resolve n env) env (fst (AllResolvers s T st ! i))
           (snd (AllResolvers s T st ! i)) sti = Some (Inr (Written c ! i, sti'))))"
proof -
  have A: "ResolveAll n env s T st =
     (if AllResolvers s T st = [] then Some (Inl (TypeNotRegistered T))
      else (case ResolveEach (Resolve n env) env (AllResolvers s T st) [] st of
              None \<Rightarrow> None
            | Some (Inl e) \<Rightarrow> Some (Inl e)
            | Some (Inr (Data, st1)) \<Rightarrow>
                Some (Inr (\<lparr>Written = Data, Num = length (AllResolvers s T st)\<rparr>, st1))))"
    by (rule ResolveAll_ResolveEach)
  have B: "length (AllResolvers s T st) = TotalResolvers s T st 0"
    by (rule length_AllResolvers)
  have C: "\<forall>c st'. ResolveAll n env s T st = Some (Inr (c, st')) \<longrightarrow>
      Num c = TotalResolvers s T st 0 \<and> length (Written c) = Num c \<and>
      (\<forall>i<length (AllResolvers s T st). \<exists>sti sti'.
         ResolveImpl (Resolve n env) env (fst (AllResolvers s T st ! i))
           (snd (AllResolvers s T st ! i)) sti = Some (Inr (Written c ! i, sti')))"
  proof (intro allI impI)
    fix c st'
    assume a: "ResolveAll n env s T st = Some (Inr (c, st'))"
    then have e: "ResolveEach (Resolve n env) env (AllResolvers s T st) [] st = Some (Inr (Written c, st'))"
      and nm: "Num c = length (AllResolvers s T st)"
      by (auto simp: ResolveAll_ResolveEach split: if_splits option.splits sum.splits)
    from ResolveEach_results[OF e] obtain R where
      R: "Written c = R" "length R = length (AllResolvers s T st)"
         "\<forall>i<length (AllResolvers s T st). \<exists>sti sti'.
           ResolveImpl (Resolve n env) env (fst (AllResolvers s T st ! i))
             (snd (AllResolvers s T st ! i)) sti = Some (Inr (R ! i, sti'))"
      by auto
    from nm R B
    show "Num c = TotalResolvers s T st 0 \<and> length (Written c) = Num c \<and>
      (\<forall>i<length (AllResolvers s T st). \<exists>sti sti'.
         ResolveImpl (Resolve n env) env (fst (AllResolvers s T st ! i))
           (snd (AllResolvers s T st ! i)) sti = Some (Inr (Written c ! i, sti')))"
      by simp
  qed
  show ?thesis by (intro conjI) (rule A, rule B, rule C)
qed

theorem ResolveAll_whole_chain_in_order_witness:
  "(case ResolveAll 1 ex_env 1 1 ex_state of
      Some (Inr (c, st')) \<Rightarrow>
        Num c = 3 \<and> length (Written c) = 3 \<and>
        map (GetClass st') (Written c) = [Some 2, Some 3, Some 4]
    | _ \<Rightarrow> False) \<and>
   AllResolvers 1 1 ex_state =
     [(0, \<lparr>EffectiveClass = Some 2, LifetimeHandler = 0\<rparr>),
      (1, \<lparr>EffectiveClass = Some 3, LifetimeHandler = 1\<rparr>),
      (1, \<lparr>EffectiveClass = Some 4, LifetimeHandler = 2\<rparr>)]"
  using ResolveAll_whole_chain_in_order[of 1 ex_env 1 1 ex_state]
  by (simp add: ex_defs run_defs LocalResolvers_def)

section \<open>Lazy creation and injection\<close>

lemma frame_TraceD: "frame st st' \<Longrightarrow> \<exists>t. Trace st' = Trace st @ t"
  by (simp add: frame_def)

lemma Factory_Create_returns:
  "Factory_Create env f outer c st = Inr (x, st1) \<Longrightarrow>
   x = length (Objects st) \<and> GetClass st1 x = Some c \<and>
   Trace st1 = Trace st @ [FactoryCreate f c x] \<and> Handlers st1 = Handlers st \<and>
   Storages st1 = Storages st"
  by (auto simp: Factory_Create_def GetClass_def split: option.splits if_splits)

lemma ResolveImpl_cached:
  "LifetimeHandler r < length (Handlers st) \<Longrightarrow>
   handler_Get (Handlers st ! LifetimeHandler r) = Some x \<Longrightarrow>
   ResolveImpl rec env s r st = Some (Inr (x, st))"
  by (simp add: ResolveImpl_def)

lemma ResolveDependencies_spec:
  "ResolveDependencies rec s Ts args st =
     (case ResolveEachIn rec s Ts st of
        None \<Rightarrow> None
      | Some (Inl e) \<Rightarrow> Some (Inl e)
      | Some (Inr (xs, st')) \<Rightarrow> Some (Inr (args @ xs, st')))"
  by (induction Ts arbitrary: args st) (auto split: option.splits sum.splits)

lemma PrepareArguments_spec:
  "PrepareArguments rec s ps args cur st =
     (case ResolveEachIn rec s (concat (map ParmClass ps)) st of
        None \<Rightarrow> None
      | Some (Inl e) \<Rightarrow> Some (Inl e)
      | Some (Inr (xs, st')) \<Rightarrow>
          Some (Inr ((args @ xs, cur + sum_list (map ParmSize ps)), st')))"
proof (induction ps arbitrary: args cur st)
  case Nil
  show ?case by simp
next
  case (Cons p ps)
  show ?case
    by (cases p)
       (auto simp: Cons sizeof_TObjectPtr_def sizeof_FScriptInterface_def
             split: option.splits sum.splits)
qed

lemma CallNativeInit_spec:
  "CallNativeInit rec s x (NativeInit env c) st = DeliverNative rec env s x c st"
  by (simp add: CallNativeInit_def DeliverNative_def ResolveDependencies_spec
           split: option.splits sum.splits)

lemma CallBlueprintInit_spec:
  "CallBlueprintInit rec s x (BlueprintInit env c) st = DeliverBlueprint rec env s x c st"
  by (auto simp: CallBlueprintInit_def DeliverBlueprint_def PrepareArguments_spec
                 DeclaredParameters_def MarshalledSize_def
           split: option.splits sum.splits)

lemma Inject_InjectSpec: "Inject rec env s x st = InjectSpec rec env s x st"
  by (simp add: Inject_def InjectSpec_def CallNativeInit_spec CallBlueprintInit_spec CanInject_def
           split: option.splits sum.splits)

lemma ResolveImpl_creation:
  assumes "LifetimeHandler r < length (Handlers st)"
      and "handler_Get (Handlers st ! LifetimeHandler r) = None"
      and "EffectiveClass r = Some c"
      and "FindInstanceFactory env s c st = Inr f"
      and "Factory_Create env f (OuterForNewObject (Storages st s)) c st = Inr (x, st1)"
  shows "ResolveImpl rec env s r st =
     (case InjectSpec rec env s x st1 of
        None \<Rightarrow> None
      | Some (Inl e) \<Rightarrow> Some (Inl e)
      | Some (Inr (b, st2)) \<Rightarrow>
          Some (Inr (x, st2\<lparr>Handlers := (Handlers st2)[LifetimeHandler r :=
                                 handler_Set (Handlers st2 ! LifetimeHandler r) x],
                             Trace := Trace st2 @ [FinalizeCreation f x,
                                                   LifetimeSet (LifetimeHandler r) x]\<rparr>)))"
  using assms
  by (simp add: ResolveImpl_def Inject_InjectSpec LifetimeHandler_Set_def
                Factory_FinalizeCreation_def split: option.splits sum.splits)

lemma ResolveImpl_errors:
  assumes "LifetimeHandler r < length (Handlers st)"
      and "handler_Get (Handlers st ! LifetimeHandler r) = None"
  shows "(EffectiveClass r = None \<longrightarrow> ResolveImpl rec env s r st = Some (Inl EffectiveClassNull)) \<and>
         (\<forall>c e. EffectiveClass r = Some c \<and> FindInstanceFactory env s c st = Inl e \<longrightarrow>
            ResolveImpl rec env s r st = Some (Inl e)) \<and>
         (\<forall>c f e. EffectiveClass r = Some c \<and> FindInstanceFactory env s c st = Inr f \<and>
            Factory_Create env f (OuterForNewObject (Storages st s)) c st = Inl e \<longrightarrow>
            ResolveImpl rec env s r st = Some (Inl e))"
  using assms by (simp add: ResolveImpl_def)

lemma InjectSpec_nothing_declared:
  "GetClass st x = Some c \<Longrightarrow> \<not> CanInject env c \<Longrightarrow> InjectSpec rec env s x st = Some (Inr (False, st))"
  by (simp add: InjectSpec_def DeliverNative_def DeliverBlueprint_def CanInject_def)

lemma Resolve_rec_le: "n \<le> m \<Longrightarrow> rec_le (Resolve n env) (Resolve m env)"
  unfolding rec_le_def by (blast intro: Resolve_fuel_mono)

lemma InjectSpec_Trace:
  assumes "InjectSpec (Resolve n env) env s x st1 = Some (Inr (b, st2))"
  shows "\<exists>inj. Trace st2 = Trace st1 @ inj"
proof -
  from assms have "Inject (Resolve n env) env s x st1 = Some (Inr (b, st2))"
    by (simp add: Inject_InjectSpec)
  from Inject_frame[OF Resolve_frame this] show ?thesis by (simp add: frame_def)
qed

text \<open>
  Claim C4. If the handler of the binding holds an instance, \<^verbatim>\<open>ResolveImpl\<close> returns it
  and the state is unchanged (no creation, no injection, no finalization). If it holds
  none, the outcome is determined step by step: a missing effective class, a failing
  factory search and a failing creation are each fatal; otherwise the factory that
  \<^verbatim>\<open>FindInstanceFactory\<close> selects makes a new object of the effective class, injection
  runs on it, and exactly when injection returns, \<^verbatim>\<open>ResolveImpl\<close> returns the new object
  with the finalization and then the \<open>Set\<close> of the handler recorded after everything the
  injection did. For a class without initializer it returns for every depth bound; a
  larger bound never changes an outcome.
\<close>

theorem ResolveImpl_lazy_and_ordered:
  "LifetimeHandler r < length (Handlers st) \<Longrightarrow>
   (\<forall>x. handler_Get (Handlers st ! LifetimeHandler r) = Some x \<longrightarrow>
        ResolveImpl (Resolve n env) env s r st = Some (Inr (x, st))) \<and>
   (handler_Get (Handlers st ! LifetimeHandler r) = None \<longrightarrow>
      (EffectiveClass r = None \<longrightarrow>
         ResolveImpl (Resolve n env) env s r st = Some (Inl EffectiveClassNull)) \<and>
      (\<forall>c e. EffectiveClass r = Some c \<and> FindInstanceFactory env s c st = Inl e \<longrightarrow>
         ResolveImpl (Resolve n env) env s r st = Some (Inl e)) \<and>
      (\<forall>c f e. EffectiveClass r = Some c \<and> FindInstanceFactory env s c st = Inr f \<and>
         Factory_Create env f (OuterForNewObject (Storages st s)) c st = Inl e \<longrightarrow>
         ResolveImpl (Resolve n env) env s r st = Some (Inl e)) \<and>
      (\<forall>c f x st1. EffectiveClass r = Some c \<and> FindInstanceFactory env s c st = Inr f \<and>
         Factory_Create env f (OuterForNewObject (Storages st s)) c st = Inr (x, st1) \<longrightarrow>
         x = length (Objects st) \<and> GetClass st1 x = Some c \<and>
         Trace st1 = Trace st @ [FactoryCreate f c x] \<and>
         ResolveImpl (Resolve n env) env s r st =
           (case InjectSpec (Resolve n env) env s x st1 of
              None \<Rightarrow> None
            | Some (Inl e) \<Rightarrow> Some (Inl e)
            | Some (Inr (b, st2)) \<Rightarrow>
                Some (Inr (x, st2\<lparr>Handlers := (Handlers st2)[LifetimeHandler r :=
                                       handler_Set (Handlers st2 ! LifetimeHandler r) x],
                                   Trace := Trace st2 @ [FinalizeCreation f x,
                                                         LifetimeSet (LifetimeHandler r) x]\<rparr>))) \<and>
         (\<forall>b st2. InjectSpec (Resolve n env) env s x st1 = Some (Inr (b, st2)) \<longrightarrow>
            (\<exists>inj. Trace st2 = Trace st @ [FactoryCreate f c x] @ inj)) \<and>
         (\<not> CanInject env c \<longrightarrow>
            ResolveImpl (Resolve n env) env s r st =
              Some (Inr (x, st1\<lparr>Handlers := (Handlers st1)[LifetimeHandler r :=
                                     handler_Set (Handlers st1 ! LifetimeHandler r) x],
                                 Trace := Trace st @ [FactoryCreate f c x, FinalizeCreation f x,
                                                      LifetimeSet (LifetimeHandler r) x]\<rparr>)))) \<and>
      (\<forall>m res. n \<le> m \<and> ResolveImpl (Resolve n env) env s r st = Some res \<longrightarrow>
         ResolveImpl (Resolve m env) env s r st = Some res))"
proof (intro conjI allI impI)
  fix x
  assume "LifetimeHandler r < length (Handlers st)"
     and "handler_Get (Handlers st ! LifetimeHandler r) = Some x"
  then show "ResolveImpl (Resolve n env) env s r st = Some (Inr (x, st))"
    by (rule ResolveImpl_cached)
next
  assume v: "LifetimeHandler r < length (Handlers st)"
     and g: "handler_Get (Handlers st ! LifetimeHandler r) = None"
  note er = ResolveImpl_errors[OF v g, where env = env and s = s and rec = "Resolve n env"]
  {
    assume "EffectiveClass r = None"
    with er show "ResolveImpl (Resolve n env) env s r st = Some (Inl EffectiveClassNull)" by blast
  next
    fix c e
    assume "EffectiveClass r = Some c \<and> FindInstanceFactory env s c st = Inl e"
    with er show "ResolveImpl (Resolve n env) env s r st = Some (Inl e)" by blast
  next
    fix c f e
    assume "EffectiveClass r = Some c \<and> FindInstanceFactory env s c st = Inr f \<and>
         Factory_Create env f (OuterForNewObject (Storages st s)) c st = Inl e"
    with er show "ResolveImpl (Resolve n env) env s r st = Some (Inl e)" by blast
  next
    fix m res
    assume "n \<le> m \<and> ResolveImpl (Resolve n env) env s r st = Some res"
    then show "ResolveImpl (Resolve m env) env s r st = Some res"
      using ResolveImpl_mono[OF Resolve_rec_le] by blast
  next
    fix c f x st1
    assume a: "EffectiveClass r = Some c \<and> FindInstanceFactory env s c st = Inr f \<and>
         Factory_Create env f (OuterForNewObject (Storages st s)) c st = Inr (x, st1)"
    then have c: "EffectiveClass r = Some c" and f: "FindInstanceFactory env s c st = Inr f"
      and k: "Factory_Create env f (OuterForNewObject (Storages st s)) c st = Inr (x, st1)"
      by simp_all
    from Factory_Create_returns[OF k] have
      kx: "x = length (Objects st)" and kc: "GetClass st1 x = Some c" and
      kt: "Trace st1 = Trace st @ [FactoryCreate f c x]"
      by blast+
    note eq = ResolveImpl_creation[OF v g c f k, where rec = "Resolve n env"]
    show "x = length (Objects st)" by (rule kx)
    show "GetClass st1 x = Some c" by (rule kc)
    show "Trace st1 = Trace st @ [FactoryCreate f c x]" by (rule kt)
    show "ResolveImpl (Resolve n env) env s r st =
           (case InjectSpec (Resolve n env) env s x st1 of
              None \<Rightarrow> None
            | Some (Inl e) \<Rightarrow> Some (Inl e)
            | Some (Inr (b, st2)) \<Rightarrow>
                Some (Inr (x, st2\<lparr>Handlers := (Handlers st2)[LifetimeHandler r :=
                                       handler_Set (Handlers st2 ! LifetimeHandler r) x],
                                   Trace := Trace st2 @ [FinalizeCreation f x,
                                                         LifetimeSet (LifetimeHandler r) x]\<rparr>)))"
      by (rule eq)
    {
      fix b st2
      assume "InjectSpec (Resolve n env) env s x st1 = Some (Inr (b, st2))"
      from InjectSpec_Trace[OF this] kt
      show "\<exists>inj. Trace st2 = Trace st @ [FactoryCreate f c x] @ inj" by auto
    next
      assume "\<not> CanInject env c"
      with kc have "InjectSpec (Resolve n env) env s x st1 = Some (Inr (False, st1))"
        by (simp add: InjectSpec_nothing_declared)
      with eq kt
      show "ResolveImpl (Resolve n env) env s r st =
              Some (Inr (x, st1\<lparr>Handlers := (Handlers st1)[LifetimeHandler r :=
                                     handler_Set (Handlers st1 ! LifetimeHandler r) x],
                                 Trace := Trace st @ [FactoryCreate f c x, FinalizeCreation f x,
                                                      LifetimeSet (LifetimeHandler r) x]\<rparr>))"
        by simp
    }
  }
qed

theorem ResolveImpl_lazy_and_ordered_witness:
  "LifetimeHandler \<lparr>EffectiveClass = Some 5, LifetimeHandler = 3\<rparr> < length (Handlers ex_dependent) \<and>
   handler_Get (Handlers ex_dependent ! 3) = None \<and>
   FindInstanceFactory ex_env 1 5 ex_dependent = Inr 0 \<and>
   Factory_Create ex_env 0 (OuterForNewObject (Storages ex_dependent 1)) 5 ex_dependent =
     Inr (1, ex_dependent\<lparr>Objects := Objects ex_dependent @ [\<lparr>ObjClass = 5, ObjOuter = 0\<rparr>],
                          Trace := Trace ex_dependent @ [FactoryCreate 0 5 1]\<rparr>) \<and>
   (case ResolveImpl (Resolve (Suc 0) ex_env) ex_env 1
           \<lparr>EffectiveClass = Some 5, LifetimeHandler = 3\<rparr> ex_dependent of
      Some (Inr (x, st')) \<Rightarrow>
        x = 1 \<and> GetClass st' x = Some 5 \<and>
        Trace st' = [FactoryCreate 0 5 1,
                     FactoryCreate 0 4 2, FinalizeCreation 0 2, LifetimeSet 2 2,
                     ProcessEvent 1 [2],
                     FinalizeCreation 0 1, LifetimeSet 3 1]
    | _ \<Rightarrow> False) \<and>
   ResolveImpl (Resolve 0 ex_env) ex_env 1
     \<lparr>EffectiveClass = Some 5, LifetimeHandler = 3\<rparr> ex_dependent = None \<and>
   LifetimeHandler \<lparr>EffectiveClass = Some 3, LifetimeHandler = 1\<rparr> < length (Handlers ex_state) \<and>
   handler_Get (Handlers ex_state ! 1) = None \<and> \<not> CanInject ex_env 3 \<and>
   (case ResolveImpl (Resolve 0 ex_env) ex_env 1
           \<lparr>EffectiveClass = Some 3, LifetimeHandler = 1\<rparr> ex_state of
      Some (Inr (x, st')) \<Rightarrow>
        x = 1 \<and> GetClass st' x = Some 3 \<and>
        Trace st' = [FactoryCreate 0 3 1, FinalizeCreation 0 1, LifetimeSet 1 1] \<and>
        Handlers st' = [Transient, Cached (Some 1), Transient, Transient]
    | _ \<Rightarrow> False) \<and>
   LifetimeHandler \<lparr>EffectiveClass = Some 3, LifetimeHandler = 1\<rparr> < length (Handlers ex_cached) \<and>
   handler_Get (Handlers ex_cached ! 1) = Some 0 \<and>
   ResolveImpl (Resolve 0 ex_env) ex_env 1 \<lparr>EffectiveClass = Some 3, LifetimeHandler = 1\<rparr> ex_cached =
     Some (Inr (0, ex_cached))"
proof -
  let ?r = "\<lparr>EffectiveClass = Some 3, LifetimeHandler = 1\<rparr>"
  let ?d = "\<lparr>EffectiveClass = Some 5, LifetimeHandler = 3\<rparr>"
  let ?st1 = "ex_dependent\<lparr>Objects := Objects ex_dependent @ [\<lparr>ObjClass = 5, ObjOuter = 0\<rparr>],
                           Trace := Trace ex_dependent @ [FactoryCreate 0 5 1]\<rparr>"
  have run: "LifetimeHandler ?d < length (Handlers ex_dependent) \<and>
   handler_Get (Handlers ex_dependent ! 3) = None \<and>
   FindInstanceFactory ex_env 1 5 ex_dependent = Inr 0 \<and>
   ResolveImpl (Resolve 0 ex_env) ex_env 1 ?d ex_dependent = None \<and>
   LifetimeHandler ?r < length (Handlers ex_state) \<and>
   handler_Get (Handlers ex_state ! 1) = None \<and> \<not> CanInject ex_env 3 \<and>
   (case ResolveImpl (Resolve 0 ex_env) ex_env 1 ?r ex_state of
      Some (Inr (x, st')) \<Rightarrow>
        x = 1 \<and> GetClass st' x = Some 3 \<and>
        Trace st' = [FactoryCreate 0 3 1, FinalizeCreation 0 1, LifetimeSet 1 1] \<and>
        Handlers st' = [Transient, Cached (Some 1), Transient, Transient]
    | _ \<Rightarrow> False)"
    by (simp add: ex_defs run_defs ex_dependent_def CanInject_def)
  have vd: "LifetimeHandler ?d < length (Handlers ex_dependent)"
    by (simp add: ex_defs ex_dependent_def)
  have gd: "handler_Get (Handlers ex_dependent ! LifetimeHandler ?d) = None"
    by (simp add: ex_defs ex_dependent_def)
  have hd: "EffectiveClass ?d = Some 5 \<and> FindInstanceFactory ex_env 1 5 ex_dependent = Inr 0 \<and>
            Factory_Create ex_env 0 (OuterForNewObject (Storages ex_dependent 1)) 5 ex_dependent =
              Inr (1, ?st1)"
    by (simp add: ex_defs run_defs ex_dependent_def)
  note eq = ResolveImpl_lazy_and_ordered[where n = "Suc 0" and env = ex_env and s = 1, OF vd,
              THEN conjunct2, THEN mp, OF gd,
              THEN conjunct2, THEN conjunct2, THEN conjunct2, THEN conjunct1,
              rule_format, OF hd,
              THEN conjunct2, THEN conjunct2, THEN conjunct2, THEN conjunct1]
  have created: "(case ResolveImpl (Resolve (Suc 0) ex_env) ex_env 1 ?d ex_dependent of
      Some (Inr (x, st')) \<Rightarrow>
        x = 1 \<and> GetClass st' x = Some 5 \<and>
        Trace st' = [FactoryCreate 0 5 1,
                     FactoryCreate 0 4 2, FinalizeCreation 0 2, LifetimeSet 2 2,
                     ProcessEvent 1 [2],
                     FinalizeCreation 0 1, LifetimeSet 3 1]
    | _ \<Rightarrow> False)"
    unfolding eq
    by (simp add: InjectSpec_def DeliverNative_def DeliverBlueprint_def DeclaredParameters_def
                  MarshalledSize_def CanInject_def ex_defs run_defs ex_dependent_def)
  from hd have kd: "Factory_Create ex_env 0 (OuterForNewObject (Storages ex_dependent 1)) 5
                      ex_dependent = Inr (1, ?st1)"
    by (simp only: simp_thms)
  have v: "LifetimeHandler ?r < length (Handlers ex_cached)"
    by (simp add: ex_cached_def)
  have g: "handler_Get (Handlers ex_cached ! LifetimeHandler ?r) = Some 0"
    by (simp add: ex_cached_def)
  have cached: "ResolveImpl (Resolve 0 ex_env) ex_env 1 ?r ex_cached = Some (Inr (0, ex_cached))"
    by (rule ResolveImpl_lazy_and_ordered[OF v, THEN conjunct1, rule_format, OF g])
  have g': "handler_Get (Handlers ex_cached ! 1) = Some 0"
    by (simp add: ex_cached_def)
  from run kd created v g' cached show ?thesis by (simp only: simp_thms)
qed




lemma ResolveDependencies_cong_scope:
  "(\<And>T st. rec s T st = rec' s T st) \<Longrightarrow>
   ResolveDependencies rec s Ts args st = ResolveDependencies rec' s Ts args st"
  by (induction Ts arbitrary: args st) (auto split: option.splits sum.splits)

lemma PrepareArguments_cong_scope:
  "(\<And>T st. rec s T st = rec' s T st) \<Longrightarrow>
   PrepareArguments rec s ps args cur st = PrepareArguments rec' s ps args cur st"
proof (induction ps arbitrary: args cur st)
  case Nil
  show ?case by simp
next
  case (Cons p ps)
  then show ?case by (cases p) (auto split: option.splits sum.splits)
qed

lemma Inject_cong_scope:
  assumes "\<And>T st. rec s T st = rec' s T st"
  shows "Inject rec env s x st = Inject rec' env s x st"
proof -
  have a: "ResolveDependencies rec s = ResolveDependencies rec' s"
    by (intro ext) (rule ResolveDependencies_cong_scope, rule assms)
  have b: "PrepareArguments rec s = PrepareArguments rec' s"
    by (intro ext) (rule PrepareArguments_cong_scope, rule assms)
  show ?thesis
    unfolding Inject_def CallNativeInit_def CallBlueprintInit_def a b ..
qed

lemma ResolveImpl_cong_scope:
  assumes "\<And>T st. rec s T st = rec' s T st"
  shows "ResolveImpl rec env s r st = ResolveImpl rec' env s r st"
proof -
  have a: "Inject rec env s = Inject rec' env s"
    by (intro ext) (rule Inject_cong_scope, rule assms)
  show ?thesis
    unfolding ResolveImpl_def a ..
qed

lemma Inject_scope: "Inject rec env s x st = Inject (\<lambda>s'. rec s) env s x st"
  by (rule Inject_cong_scope) simp

lemma ResolveImpl_scope: "ResolveImpl rec env s r st = ResolveImpl (\<lambda>s'. rec s) env s r st"
  by (rule ResolveImpl_cong_scope) simp

lemma Resolve_creation:
  assumes g: "GetResolver env s A st = Inr (r, st0)"
      and v: "LifetimeHandler r < length (Handlers st0)"
      and e: "handler_Get (Handlers st0 ! LifetimeHandler r) = None"
      and c: "EffectiveClass r = Some c"
      and f: "FindInstanceFactory env s c st0 = Inr f"
      and k: "Factory_Create env f (OuterForNewObject (Storages st0 s)) c st0 = Inr (x, st1)"
  shows "Resolve (Suc n) env s A st =
     (case InjectSpec (Resolve n env) env s x st1 of
        None \<Rightarrow> None
      | Some (Inl e) \<Rightarrow> Some (Inl e)
      | Some (Inr (b, st2)) \<Rightarrow>
          Some (Inr (x, st2\<lparr>Handlers := (Handlers st2)[LifetimeHandler r :=
                                 handler_Set (Handlers st2 ! LifetimeHandler r) x],
                             Trace := Trace st2 @ [FinalizeCreation f x,
                                                   LifetimeSet (LifetimeHandler r) x]\<rparr>)))"
  using ResolveImpl_creation[OF v e c f k, where rec = "Resolve n env"] g by simp

lemma Resolve_local_cached:
  assumes lb: "Find (Registrations (Storages st s)) B = Some rs" and ne: "rs \<noteq> []"
      and hv: "LifetimeHandler (last rs) < length (Handlers st)"
      and hy: "handler_Get (Handlers st ! LifetimeHandler (last rs)) = Some y"
  shows "Resolve (Suc n) env s B st = Some (Inr (y, st))"
  using GetResolver_local[OF lb ne, of env] ResolveImpl_cached[OF hv hy] by simp

lemma Resolve_override:
  assumes g: "GetResolver env s A st = Inr (r, st0)"
      and v: "LifetimeHandler r < length (Handlers st0)"
      and e: "handler_Get (Handlers st0 ! LifetimeHandler r) = None"
      and c: "EffectiveClass r = Some c"
      and f: "FindInstanceFactory env s c st0 = Inr f"
      and k: "Factory_Create env f (OuterForNewObject (Storages st0 s)) c st0 = Inr (x, st1)"
      and nn: "NativeInit env c = None"
      and bp: "BlueprintInit env c = Some fn"
      and dp: "DeclaredParameters fn = [B]"
      and sz: "MarshalledSize fn = ParmsSize fn"
      and lb: "Find (Registrations (Storages st0 s)) B = Some rs" and ne: "rs \<noteq> []"
      and hv: "LifetimeHandler (last rs) < length (Handlers st0)"
      and hy: "handler_Get (Handlers st0 ! LifetimeHandler (last rs)) = Some y"
  shows "Resolve (Suc (Suc n)) env s A st =
     Some (Inr (x, st1\<lparr>Handlers := (Handlers st1)[LifetimeHandler r :=
                            handler_Set (Handlers st1 ! LifetimeHandler r) x],
                        Trace := Trace st0 @ [FactoryCreate f c x, ProcessEvent x [y],
                                              FinalizeCreation f x,
                                              LifetimeSet (LifetimeHandler r) x]\<rparr>))"
proof -
  from Factory_Create_returns[OF k] have
    kc: "GetClass st1 x = Some c" and kt: "Trace st1 = Trace st0 @ [FactoryCreate f c x]" and
    kh: "Handlers st1 = Handlers st0" and ks: "Storages st1 = Storages st0"
    by blast+
  have "Resolve (Suc n) env s B st1 = Some (Inr (y, st1))"
    using lb ne hv hy by (intro Resolve_local_cached[where rs = rs]) (simp_all add: kh ks)
  then have "ResolveEachIn (Resolve (Suc n) env) s [B] st1 = Some (Inr ([y], st1))"
    by simp
  then have "InjectSpec (Resolve (Suc n) env) env s x st1 =
               Some (Inr (True, st1\<lparr>Trace := Trace st1 @ [ProcessEvent x [y]]\<rparr>))"
    by (simp add: InjectSpec_def kc DeliverNative_def nn DeliverBlueprint_def bp dp sz CanInject_def)
  with Resolve_creation[OF g v e c f k, of "Suc n"] kt show ?thesis by simp
qed

text \<open>
  Claim C9. \<^verbatim>\<open>Resolve\<close> in storage \<open>s\<close> creates and injects in \<open>s\<close>, wherever the
  binding was found, and every nested resolution made by the injection goes to
  \<^verbatim>\<open>Resolve\<close> of \<open>s\<close> itself: replacing the resolver of every other storage by that of
  \<open>s\<close> changes nothing. \<^verbatim>\<open>Inject\<close> is the injection of the spec: every declared
  dependency, of the direct and of the reflective initializer, is resolved through \<open>s\<close>,
  in order, and the results are what the initializers receive. On the creation path
  \<^verbatim>\<open>Resolve\<close> returns exactly when that injection returns. In particular, when the
  created class declares one dependency and \<open>s\<close> has a local binding for it whose handler
  holds an instance, \<^verbatim>\<open>Resolve\<close> returns and that instance is the one delivered,
  whatever the ancestors bind.
\<close>

theorem Resolve_dependencies_in_resolving_scope:
  "Resolve (Suc n) env s A st =
     (case GetResolver env s A st of
        Inl e \<Rightarrow> Some (Inl e)
      | Inr (r, st0) \<Rightarrow> ResolveImpl (\<lambda>s'. Resolve n env s) env s r st0) \<and>
   ResolveImpl rec env s r st = ResolveImpl (\<lambda>s'. rec s) env s r st \<and>
   Inject rec env s x st = Inject (\<lambda>s'. rec s) env s x st \<and>
   (Find (Registrations (Storages st s)) B = Some rs \<and> rs \<noteq> [] \<longrightarrow>
      Resolve (Suc n) env s B st = ResolveImpl (Resolve n env) env s (last rs) st) \<and>
   Inject rec env s x st = InjectSpec rec env s x st \<and>
   (\<forall>b st0 c f y st1.
      GetResolver env s A st = Inr (b, st0) \<and>
      LifetimeHandler b < length (Handlers st0) \<and>
      handler_Get (Handlers st0 ! LifetimeHandler b) = None \<and>
      EffectiveClass b = Some c \<and>
      FindInstanceFactory env s c st0 = Inr f \<and>
      Factory_Create env f (OuterForNewObject (Storages st0 s)) c st0 = Inr (y, st1) \<longrightarrow>
      Resolve (Suc n) env s A st =
        (case InjectSpec (Resolve n env) env s y st1 of
           None \<Rightarrow> None
         | Some (Inl e) \<Rightarrow> Some (Inl e)
         | Some (Inr (d, st2)) \<Rightarrow>
             Some (Inr (y, st2\<lparr>Handlers := (Handlers st2)[LifetimeHandler b :=
                                    handler_Set (Handlers st2 ! LifetimeHandler b) y],
                                Trace := Trace st2 @ [FinalizeCreation f y,
                                                      LifetimeSet (LifetimeHandler b) y]\<rparr>))) \<and>
      (\<forall>fn D ds z.
         NativeInit env c = None \<and> BlueprintInit env c = Some fn \<and>
         DeclaredParameters fn = [D] \<and> MarshalledSize fn = ParmsSize fn \<and>
         Find (Registrations (Storages st0 s)) D = Some ds \<and> ds \<noteq> [] \<and>
         LifetimeHandler (last ds) < length (Handlers st0) \<and>
         handler_Get (Handlers st0 ! LifetimeHandler (last ds)) = Some z \<longrightarrow>
         Resolve (Suc (Suc n)) env s A st =
           Some (Inr (y, st1\<lparr>Handlers := (Handlers st1)[LifetimeHandler b :=
                                  handler_Set (Handlers st1 ! LifetimeHandler b) y],
                              Trace := Trace st0 @ [FactoryCreate f c y, ProcessEvent y [z],
                                                    FinalizeCreation f y,
                                                    LifetimeSet (LifetimeHandler b) y]\<rparr>))))"
proof -
  have a: "Resolve (Suc n) env s A st =
     (case GetResolver env s A st of
        Inl e \<Rightarrow> Some (Inl e)
      | Inr (r, st0) \<Rightarrow> ResolveImpl (\<lambda>s'. Resolve n env s) env s r st0)"
    by (auto split: sum.splits intro: ResolveImpl_scope)
  have b: "Find (Registrations (Storages st s)) B = Some rs \<and> rs \<noteq> [] \<longrightarrow>
      Resolve (Suc n) env s B st = ResolveImpl (Resolve n env) env s (last rs) st"
    by (simp add: GetResolver_local)
  have c: "\<forall>b st0 c f y st1.
      GetResolver env s A st = Inr (b, st0) \<and>
      LifetimeHandler b < length (Handlers st0) \<and>
      handler_Get (Handlers st0 ! LifetimeHandler b) = None \<and>
      EffectiveClass b = Some c \<and>
      FindInstanceFactory env s c st0 = Inr f \<and>
      Factory_Create env f (OuterForNewObject (Storages st0 s)) c st0 = Inr (y, st1) \<longrightarrow>
      Resolve (Suc n) env s A st =
        (case InjectSpec (Resolve n env) env s y st1 of
           None \<Rightarrow> None
         | Some (Inl e) \<Rightarrow> Some (Inl e)
         | Some (Inr (d, st2)) \<Rightarrow>
             Some (Inr (y, st2\<lparr>Handlers := (Handlers st2)[LifetimeHandler b :=
                                    handler_Set (Handlers st2 ! LifetimeHandler b) y],
                                Trace := Trace st2 @ [FinalizeCreation f y,
                                                      LifetimeSet (LifetimeHandler b) y]\<rparr>))) \<and>
      (\<forall>fn D ds z.
         NativeInit env c = None \<and> BlueprintInit env c = Some fn \<and>
         DeclaredParameters fn = [D] \<and> MarshalledSize fn = ParmsSize fn \<and>
         Find (Registrations (Storages st0 s)) D = Some ds \<and> ds \<noteq> [] \<and>
         LifetimeHandler (last ds) < length (Handlers st0) \<and>
         handler_Get (Handlers st0 ! LifetimeHandler (last ds)) = Some z \<longrightarrow>
         Resolve (Suc (Suc n)) env s A st =
           Some (Inr (y, st1\<lparr>Handlers := (Handlers st1)[LifetimeHandler b :=
                                  handler_Set (Handlers st1 ! LifetimeHandler b) y],
                              Trace := Trace st0 @ [FactoryCreate f c y, ProcessEvent y [z],
                                                    FinalizeCreation f y,
                                                    LifetimeSet (LifetimeHandler b) y]\<rparr>)))"
  proof (intro allI impI conjI)
    fix b st0 c f y st1
    assume h: "GetResolver env s A st = Inr (b, st0) \<and>
      LifetimeHandler b < length (Handlers st0) \<and>
      handler_Get (Handlers st0 ! LifetimeHandler b) = None \<and>
      EffectiveClass b = Some c \<and>
      FindInstanceFactory env s c st0 = Inr f \<and>
      Factory_Create env f (OuterForNewObject (Storages st0 s)) c st0 = Inr (y, st1)"
    then have g: "GetResolver env s A st = Inr (b, st0)"
      and v: "LifetimeHandler b < length (Handlers st0)"
      and e: "handler_Get (Handlers st0 ! LifetimeHandler b) = None"
      and ec: "EffectiveClass b = Some c"
      and ff: "FindInstanceFactory env s c st0 = Inr f"
      and k: "Factory_Create env f (OuterForNewObject (Storages st0 s)) c st0 = Inr (y, st1)"
      by simp_all
    show "Resolve (Suc n) env s A st =
        (case InjectSpec (Resolve n env) env s y st1 of
           None \<Rightarrow> None
         | Some (Inl e) \<Rightarrow> Some (Inl e)
         | Some (Inr (d, st2)) \<Rightarrow>
             Some (Inr (y, st2\<lparr>Handlers := (Handlers st2)[LifetimeHandler b :=
                                    handler_Set (Handlers st2 ! LifetimeHandler b) y],
                                Trace := Trace st2 @ [FinalizeCreation f y,
                                                      LifetimeSet (LifetimeHandler b) y]\<rparr>)))"
      by (rule Resolve_creation[OF g v e ec ff k])
    fix fn D ds z
    assume "NativeInit env c = None \<and> BlueprintInit env c = Some fn \<and>
         DeclaredParameters fn = [D] \<and> MarshalledSize fn = ParmsSize fn \<and>
         Find (Registrations (Storages st0 s)) D = Some ds \<and> ds \<noteq> [] \<and>
         LifetimeHandler (last ds) < length (Handlers st0) \<and>
         handler_Get (Handlers st0 ! LifetimeHandler (last ds)) = Some z"
    then show "Resolve (Suc (Suc n)) env s A st =
           Some (Inr (y, st1\<lparr>Handlers := (Handlers st1)[LifetimeHandler b :=
                                  handler_Set (Handlers st1 ! LifetimeHandler b) y],
                              Trace := Trace st0 @ [FactoryCreate f c y, ProcessEvent y [z],
                                                    FinalizeCreation f y,
                                                    LifetimeSet (LifetimeHandler b) y]\<rparr>))"
      using Resolve_override[OF g v e ec ff k, where fn = fn and B = D and rs = ds and y = z]
      by blast
  qed
  show ?thesis
    by (intro conjI) (rule a, rule ResolveImpl_scope, rule Inject_scope, rule b,
                      rule Inject_InjectSpec, rule c)
qed

theorem Resolve_dependencies_in_resolving_scope_witness:
  "Find (Registrations (Storages ex_dependent 1)) 5 = None \<and>
   Find (Registrations (Storages ex_dependent 0)) 5 =
     Some [\<lparr>EffectiveClass = Some 5, LifetimeHandler = 3\<rparr>] \<and>
   (case Resolve (Suc (Suc 0)) ex_env 1 5 ex_dependent of
      Some (Inr (a, st')) \<Rightarrow>
        Trace st' = [FactoryCreate 0 5 1, FactoryCreate 0 4 2, FinalizeCreation 0 2, LifetimeSet 2 2,
                     ProcessEvent 1 [2], FinalizeCreation 0 1, LifetimeSet 3 1] \<and>
        GetClass st' 2 = Some 4
    | _ \<Rightarrow> False) \<and>
   (case Resolve (Suc (Suc 0)) ex_env 0 5 ex_dependent of
      Some (Inr (a, st')) \<Rightarrow>
        Trace st' = [FactoryCreate 0 5 1, FactoryCreate 0 2 2, FinalizeCreation 0 2, LifetimeSet 0 2,
                     ProcessEvent 1 [2], FinalizeCreation 0 1, LifetimeSet 3 1] \<and>
        GetClass st' 2 = Some 2
    | _ \<Rightarrow> False) \<and>
   (case Resolve (Suc (Suc 0)) ex_env 1 6 ex_state of
      Some (Inr (a, st')) \<Rightarrow>
        Trace st' = [FactoryCreate 0 6 1, FactoryCreate 0 4 2, FinalizeCreation 0 2, LifetimeSet 2 2,
                     NativeInitCalled 1 1 [2], FinalizeCreation 0 1, LifetimeSet 4 1] \<and>
        GetClass st' 2 = Some 4
    | _ \<Rightarrow> False) \<and>
   (case Resolve (Suc (Suc 0)) ex_env 1 8 ex_state of
      Some (Inr (a, st')) \<Rightarrow>
        Trace st' = [FactoryCreate 0 8 1,
                     FactoryCreate 0 7 2, FinalizeCreation 0 2, LifetimeSet 5 2,
                     FactoryCreate 0 4 3, FinalizeCreation 0 3, LifetimeSet 2 3,
                     ProcessEvent 1 [2, 3], FinalizeCreation 0 1, LifetimeSet 4 1] \<and>
        GetClass st' 2 = Some 7 \<and> GetClass st' 3 = Some 4
    | _ \<Rightarrow> False) \<and>
   GetResolver ex_env 1 5 ex_override =
     Inr (\<lparr>EffectiveClass = Some 5, LifetimeHandler = 3\<rparr>, ex_override) \<and>
   Find (Registrations (Storages ex_override 0)) 1 =
     Some [\<lparr>EffectiveClass = Some 2, LifetimeHandler = 0\<rparr>] \<and>
   Find (Registrations (Storages ex_override 1)) 1 =
     Some [\<lparr>EffectiveClass = Some 3, LifetimeHandler = 1\<rparr>,
           \<lparr>EffectiveClass = Some 4, LifetimeHandler = 2\<rparr>] \<and>
   handler_Get (Handlers ex_override ! 2) = Some 1 \<and>
   (case Resolve (Suc (Suc 0)) ex_env 1 5 ex_override of
      Some (Inr (a, st')) \<Rightarrow>
        a = 2 \<and>
        Trace st' = [FactoryCreate 0 5 2, ProcessEvent 2 [1], FinalizeCreation 0 2, LifetimeSet 3 2]
    | _ \<Rightarrow> False)"
proof -
  let ?b = "\<lparr>EffectiveClass = Some 5, LifetimeHandler = 3\<rparr>"
  let ?fn = "\<lparr>ParmsSize = 16, Properties = [FInterfaceProperty True 1]\<rparr>"
  let ?ds = "[\<lparr>EffectiveClass = Some 3, LifetimeHandler = 1\<rparr>,
              \<lparr>EffectiveClass = Some 4, LifetimeHandler = 2\<rparr>]"
  let ?st1 = "ex_override\<lparr>Objects := Objects ex_override @ [\<lparr>ObjClass = 5, ObjOuter = 0\<rparr>],
                          Trace := Trace ex_override @ [FactoryCreate 0 5 2]\<rparr>"
  have run: "Find (Registrations (Storages ex_dependent 1)) 5 = None \<and>
   Find (Registrations (Storages ex_dependent 0)) 5 =
     Some [\<lparr>EffectiveClass = Some 5, LifetimeHandler = 3\<rparr>] \<and>
   (case Resolve (Suc (Suc 0)) ex_env 1 5 ex_dependent of
      Some (Inr (a, st')) \<Rightarrow>
        Trace st' = [FactoryCreate 0 5 1, FactoryCreate 0 4 2, FinalizeCreation 0 2, LifetimeSet 2 2,
                     ProcessEvent 1 [2], FinalizeCreation 0 1, LifetimeSet 3 1] \<and>
        GetClass st' 2 = Some 4
    | _ \<Rightarrow> False) \<and>
   (case Resolve (Suc (Suc 0)) ex_env 0 5 ex_dependent of
      Some (Inr (a, st')) \<Rightarrow>
        Trace st' = [FactoryCreate 0 5 1, FactoryCreate 0 2 2, FinalizeCreation 0 2, LifetimeSet 0 2,
                     ProcessEvent 1 [2], FinalizeCreation 0 1, LifetimeSet 3 1] \<and>
        GetClass st' 2 = Some 2
    | _ \<Rightarrow> False) \<and>
   (case Resolve (Suc (Suc 0)) ex_env 1 6 ex_state of
      Some (Inr (a, st')) \<Rightarrow>
        Trace st' = [FactoryCreate 0 6 1, FactoryCreate 0 4 2, FinalizeCreation 0 2, LifetimeSet 2 2,
                     NativeInitCalled 1 1 [2], FinalizeCreation 0 1, LifetimeSet 4 1] \<and>
        GetClass st' 2 = Some 4
    | _ \<Rightarrow> False) \<and>
   (case Resolve (Suc (Suc 0)) ex_env 1 8 ex_state of
      Some (Inr (a, st')) \<Rightarrow>
        Trace st' = [FactoryCreate 0 8 1,
                     FactoryCreate 0 7 2, FinalizeCreation 0 2, LifetimeSet 5 2,
                     FactoryCreate 0 4 3, FinalizeCreation 0 3, LifetimeSet 2 3,
                     ProcessEvent 1 [2, 3], FinalizeCreation 0 1, LifetimeSet 4 1] \<and>
        GetClass st' 2 = Some 7 \<and> GetClass st' 3 = Some 4
    | _ \<Rightarrow> False)"
    by (simp add: ex_defs run_defs ex_dependent_def)
  have h1: "GetResolver ex_env 1 5 ex_override = Inr (?b, ex_override) \<and>
      LifetimeHandler ?b < length (Handlers ex_override) \<and>
      handler_Get (Handlers ex_override ! LifetimeHandler ?b) = None \<and>
      EffectiveClass ?b = Some 5 \<and>
      FindInstanceFactory ex_env 1 5 ex_override = Inr 0 \<and>
      Factory_Create ex_env 0 (OuterForNewObject (Storages ex_override 1)) 5 ex_override =
        Inr (2, ?st1)"
    by (simp add: ex_defs run_defs ex_dependent_def ex_override_def)
  have h2: "NativeInit ex_env 5 = None \<and> BlueprintInit ex_env 5 = Some ?fn \<and>
         DeclaredParameters ?fn = [1] \<and> MarshalledSize ?fn = ParmsSize ?fn \<and>
         Find (Registrations (Storages ex_override 1)) 1 = Some ?ds \<and> ?ds \<noteq> [] \<and>
         LifetimeHandler (last ?ds) < length (Handlers ex_override) \<and>
         handler_Get (Handlers ex_override ! LifetimeHandler (last ?ds)) = Some 1"
    by (simp add: ex_defs run_defs ex_dependent_def ex_override_def DeclaredParameters_def
                  MarshalledSize_def)
  note t = Resolve_dependencies_in_resolving_scope[where n = 0 and env = ex_env and s = 1
             and A = 5 and st = ex_override,
             THEN conjunct2, THEN conjunct2, THEN conjunct2, THEN conjunct2, THEN conjunct2,
             rule_format, OF h1, THEN conjunct2, rule_format, OF h2]
  have over: "(case Resolve (Suc (Suc 0)) ex_env 1 5 ex_override of
      Some (Inr (a, st')) \<Rightarrow>
        a = 2 \<and>
        Trace st' = [FactoryCreate 0 5 2, ProcessEvent 2 [1], FinalizeCreation 0 2, LifetimeSet 3 2]
    | _ \<Rightarrow> False)"
    unfolding t by (simp add: ex_defs ex_dependent_def ex_override_def)
  have facts: "Find (Registrations (Storages ex_override 0)) 1 =
       Some [\<lparr>EffectiveClass = Some 2, LifetimeHandler = 0\<rparr>] \<and>
     handler_Get (Handlers ex_override ! 2) = Some 1"
    by (simp add: ex_defs ex_dependent_def ex_override_def)
  from h1 have g: "GetResolver ex_env 1 5 ex_override = Inr (?b, ex_override)"
    by (rule conjunct1)
  have l: "Find (Registrations (Storages ex_override 1)) 1 = Some ?ds"
    by (simp add: ex_defs ex_dependent_def ex_override_def)
  from run g l over facts show ?thesis by (simp only: simp_thms)
qed

section \<open>Where auto-registration lands\<close>

lemma Find_AutoRegister_other:
  "K \<noteq> T \<Longrightarrow> Find (Registrations (Storages (AutoRegister T st) 0)) K = Find (Registrations (Storages st 0)) K"
  by (simp add: AutoRegister_def set_Registrations_def Find_update_other)

lemma frame_Storages_Suc: "frame st st' \<Longrightarrow> Storages st' (Suc i) = Storages st (Suc i)"
  by (simp add: frame_def)

lemma frame_Find_root:
  "frame st st' \<Longrightarrow> Find (Registrations (Storages st 0)) K = Some rs \<Longrightarrow>
   Find (Registrations (Storages st' 0)) K = Some rs"
  by (simp add: frame_def)

lemma GetResolver_after_frame:
  assumes nr: "\<not> IsRegistered s T st" and f: "frame (AutoRegister T st) st'"
  shows "GetResolver env s T st' = Inr (AutoRegistered T st, st')"
proof -
  have r: "Find (Registrations (Storages st' 0)) T = Some [AutoRegistered T st]"
    by (rule frame_Find_root[OF f Find_AutoRegister])
  have "\<forall>i. 0 < i \<and> i \<le> s \<longrightarrow> Find (Registrations (Storages st' i)) T = None"
  proof (intro allI impI)
    fix i assume i: "0 < i \<and> i \<le> s"
    then obtain j where j: "i = Suc j" by (cases i) auto
    have "Storages st' i = Storages st i"
      by (simp only: j frame_Storages_Suc[OF f] Storages_AutoRegister_Suc)
    with i not_registered_Find[OF nr, of i]
    show "Find (Registrations (Storages st' i)) T = None" by simp
  qed
  from Find_root_GetResolver[OF r _ this] show ?thesis by simp
qed

text \<open>
  Claim C5. For a type registered nowhere in the chain: if it is not an interface,
  \<^verbatim>\<open>GetResolver\<close> emplaces one binding of the type to itself with a new Transient
  handler, and looking the type up again, at once or after the whole \<^verbatim>\<open>Resolve\<close> has
  returned, finds that same single binding and changes nothing; if it is an interface,
  the lookup and with it \<^verbatim>\<open>Resolve\<close> fail with the error naming the type.
\<close>

theorem GetResolver_auto_registers_once:
  "\<not> IsRegistered s T st \<Longrightarrow>
   (\<not> IsInterface env T \<longrightarrow>
      GetResolver env s T st = Inr (AutoRegistered T st, AutoRegister T st) \<and>
      EffectiveClass (AutoRegistered T st) = Some T \<and>
      Handlers (AutoRegister T st) ! LifetimeHandler (AutoRegistered T st) = Transient \<and>
      Find (Registrations (Storages (AutoRegister T st) 0)) T = Some [AutoRegistered T st] \<and>
      GetResolver env s T (AutoRegister T st) = Inr (AutoRegistered T st, AutoRegister T st) \<and>
      Resolve (Suc n) env s T st =
        ResolveImpl (Resolve n env) env s (AutoRegistered T st) (AutoRegister T st) \<and>
      (\<forall>x st'. Resolve (Suc n) env s T st = Some (Inr (x, st')) \<longrightarrow>
         Find (Registrations (Storages st' 0)) T = Some [AutoRegistered T st] \<and>
         GetResolver env s T st' = Inr (AutoRegistered T st, st'))) \<and>
   (IsInterface env T \<longrightarrow>
      GetResolver env s T st = Inl (CannotAutoRegister T) \<and>
      Resolve (Suc n) env s T st = Some (Inl (CannotAutoRegister T)))"
proof -
  assume nr: "\<not> IsRegistered s T st"
  have later: "\<not> IsInterface env T \<Longrightarrow>
      \<forall>x st'. Resolve (Suc n) env s T st = Some (Inr (x, st')) \<longrightarrow>
         Find (Registrations (Storages st' 0)) T = Some [AutoRegistered T st] \<and>
         GetResolver env s T st' = Inr (AutoRegistered T st, st')"
  proof (intro allI impI)
    fix x st'
    assume ni: "\<not> IsInterface env T"
       and "Resolve (Suc n) env s T st = Some (Inr (x, st'))"
    then have "ResolveImpl (Resolve n env) env s (AutoRegistered T st) (AutoRegister T st)
                 = Some (Inr (x, st'))"
      by (simp add: GetResolver_unregistered[OF nr])
    from ResolveImpl_frame[OF Resolve_frame this] have f: "frame (AutoRegister T st) st'" .
    show "Find (Registrations (Storages st' 0)) T = Some [AutoRegistered T st] \<and>
         GetResolver env s T st' = Inr (AutoRegistered T st, st')"
      by (intro conjI) (rule frame_Find_root[OF f Find_AutoRegister],
                        rule GetResolver_after_frame[OF nr f])
  qed
  have h: "Handlers (AutoRegister T st) ! LifetimeHandler (AutoRegistered T st) = Transient"
    by (simp add: AutoRegister_def AutoRegistered_def set_Registrations_def)
  have e: "EffectiveClass (AutoRegistered T st) = Some T"
    by (simp add: AutoRegistered_def)
  show ?thesis
    using later h e GetResolver_after_AutoRegister[OF nr, of env]
    by (simp add: GetResolver_unregistered[OF nr] Find_AutoRegister)
qed

theorem GetResolver_auto_registers_once_witness:
  "\<not> IsRegistered 1 7 ex_state \<and> \<not> IsInterface ex_env 7 \<and>
   GetResolver ex_env 1 7 ex_state =
     Inr (\<lparr>EffectiveClass = Some 7, LifetimeHandler = 4\<rparr>, AutoRegister 7 ex_state) \<and>
   GetResolver ex_env 1 7 (AutoRegister 7 ex_state) =
     Inr (\<lparr>EffectiveClass = Some 7, LifetimeHandler = 4\<rparr>, AutoRegister 7 ex_state) \<and>
   (case Resolve (Suc 0) ex_env 1 7 ex_state of
      Some (Inr (x, st')) \<Rightarrow>
        GetClass st' x = Some 7 \<and>
        Find (Registrations (Storages st' 0)) 7 =
          Some [\<lparr>EffectiveClass = Some 7, LifetimeHandler = 4\<rparr>]
    | _ \<Rightarrow> False) \<and>
   \<not> IsRegistered 1 1 ex_empty \<and> IsInterface ex_env 1 \<and>
   Resolve (Suc 0) ex_env 1 1 ex_empty = Some (Inl (CannotAutoRegister 1))"
  using GetResolver_auto_registers_once[of 1 7 ex_state ex_env 0]
        GetResolver_auto_registers_once[of 1 1 ex_empty ex_env 0]
  by (simp add: ex_defs run_defs)

text \<open>
  Claim C10. When a storage with a parent resolves a non-interface type registered
  nowhere in the chain, the new binding is emplaced in the table of the root; every
  other key of the root table and every storage other than the root are unchanged, also
  after the creation and injection that follow; \<^verbatim>\<open>IsRegistered\<close> then holds for the type
  in every storage.
\<close>

theorem auto_registration_lands_in_root:
  "\<not> IsRegistered (Suc p) T st \<Longrightarrow> \<not> IsInterface env T \<Longrightarrow>
   GetResolver env (Suc p) T st = Inr (AutoRegistered T st, AutoRegister T st) \<and>
   Find (Registrations (Storages (AutoRegister T st) 0)) T = Some [AutoRegistered T st] \<and>
   Handlers (AutoRegister T st) ! LifetimeHandler (AutoRegistered T st) = Transient \<and>
   (\<forall>K. K \<noteq> T \<longrightarrow> Find (Registrations (Storages (AutoRegister T st) 0)) K =
                     Find (Registrations (Storages st 0)) K) \<and>
   (\<forall>i. Storages (AutoRegister T st) (Suc i) = Storages st (Suc i)) \<and>
   (\<forall>i. IsRegistered i T (AutoRegister T st)) \<and>
   (\<forall>x st'. Resolve (Suc n) env (Suc p) T st = Some (Inr (x, st')) \<longrightarrow>
      Find (Registrations (Storages st' 0)) T = Some [AutoRegistered T st] \<and>
      (\<forall>i. Storages st' (Suc i) = Storages st (Suc i)) \<and>
      (\<forall>i. IsRegistered i T st'))"
proof -
  assume nr: "\<not> IsRegistered (Suc p) T st" and ni: "\<not> IsInterface env T"
  have g: "GetResolver env (Suc p) T st = Inr (AutoRegistered T st, AutoRegister T st)"
    using ni by (simp only: GetResolver_unregistered[OF nr] if_False)
  have h: "Handlers (AutoRegister T st) ! LifetimeHandler (AutoRegistered T st) = Transient"
    by (simp add: AutoRegister_def AutoRegistered_def set_Registrations_def)
  have r: "\<forall>x st'. Resolve (Suc n) env (Suc p) T st = Some (Inr (x, st')) \<longrightarrow>
      Find (Registrations (Storages st' 0)) T = Some [AutoRegistered T st] \<and>
      (\<forall>i. Storages st' (Suc i) = Storages st (Suc i)) \<and>
      (\<forall>i. IsRegistered i T st')"
  proof (intro allI impI)
    fix x st'
    assume "Resolve (Suc n) env (Suc p) T st = Some (Inr (x, st'))"
    with g have "ResolveImpl (Resolve n env) env (Suc p) (AutoRegistered T st) (AutoRegister T st)
                   = Some (Inr (x, st'))"
      by simp
    from ResolveImpl_frame[OF Resolve_frame this] have f: "frame (AutoRegister T st) st'" .
    have a: "Find (Registrations (Storages st' 0)) T = Some [AutoRegistered T st]"
      by (rule frame_Find_root[OF f Find_AutoRegister])
    have b: "\<forall>i. Storages st' (Suc i) = Storages st (Suc i)"
      by (simp only: frame_Storages_Suc[OF f] Storages_AutoRegister_Suc) simp
    have c: "\<forall>i. IsRegistered i T st'"
      by (intro allI) (rule Find_root_IsRegistered[OF a])
    show "Find (Registrations (Storages st' 0)) T = Some [AutoRegistered T st] \<and>
      (\<forall>i. Storages st' (Suc i) = Storages st (Suc i)) \<and>
      (\<forall>i. IsRegistered i T st')"
      by (intro conjI) (rule a, rule b, rule c)
  qed
  have i: "\<forall>i. IsRegistered i T (AutoRegister T st)"
    by (intro allI) (rule Find_root_IsRegistered[OF Find_AutoRegister])
  have k: "\<forall>K. K \<noteq> T \<longrightarrow> Find (Registrations (Storages (AutoRegister T st) 0)) K =
                     Find (Registrations (Storages st 0)) K"
    by (intro allI impI) (rule Find_AutoRegister_other)
  have u: "\<forall>i. Storages (AutoRegister T st) (Suc i) = Storages st (Suc i)"
    by (intro allI) (rule Storages_AutoRegister_Suc)
  show ?thesis
    by (intro conjI) (rule g, rule Find_AutoRegister, rule h, rule k, rule u, rule i, rule r)
qed

theorem auto_registration_lands_in_root_witness:
  "\<not> IsRegistered (Suc 0) 7 ex_state \<and> \<not> IsInterface ex_env 7 \<and>
   GetResolver ex_env (Suc 0) 7 ex_state =
     Inr (\<lparr>EffectiveClass = Some 7, LifetimeHandler = 4\<rparr>, AutoRegister 7 ex_state) \<and>
   Find (Registrations (Storages (AutoRegister 7 ex_state) 0)) 7 =
     Some [\<lparr>EffectiveClass = Some 7, LifetimeHandler = 4\<rparr>] \<and>
   Registrations (Storages (AutoRegister 7 ex_state) (Suc 0)) = Registrations (Storages ex_state (Suc 0)) \<and>
   IsRegistered 0 7 (AutoRegister 7 ex_state) \<and> IsRegistered (Suc 0) 7 (AutoRegister 7 ex_state) \<and>
   (case Resolve (Suc 0) ex_env (Suc 0) 7 ex_state of
      Some (Inr (x, st')) \<Rightarrow>
        Find (Registrations (Storages st' 0)) 7 = Some [\<lparr>EffectiveClass = Some 7, LifetimeHandler = 4\<rparr>] \<and>
        Registrations (Storages st' (Suc 0)) = Registrations (Storages ex_state (Suc 0)) \<and>
        IsRegistered (Suc 0) 7 st'
    | _ \<Rightarrow> False)"
  using auto_registration_lands_in_root[of 0 7 ex_state ex_env 0]
  by (simp add: ex_defs run_defs)

section \<open>The factory chain\<close>

lemma frame_InstanceFactories:
  "frame st st' \<Longrightarrow> InstanceFactories (Storages st' s) = InstanceFactories (Storages st s)"
  by (cases s) (simp_all add: frame_def)

lemma ResolveAll_frame:
  "ResolveAll n env s T st = Some (Inr (c, st')) \<Longrightarrow> frame st st'"
  by (auto simp: ResolveAll_ResolveEach split: if_splits option.splits sum.splits
           dest: ResolveEach_frame[OF Resolve_frame])

lemma Registrations_AddDefaultFactory:
  "Registrations (Storages (AddDefaultFactory env s st) i) = Registrations (Storages st i)"
  by (simp add: AddDefaultFactory_def set_InstanceFactories_def)

lemma LocalResolvers_AddDefaultFactory: "LocalResolvers i T (AddDefaultFactory env s st) = LocalResolvers i T st"
  by (simp add: LocalResolvers_def Registrations_AddDefaultFactory)

lemma AllResolvers_AddDefaultFactory: "AllResolvers i T (AddDefaultFactory env s st) = AllResolvers i T st"
  by (induction i) (simp_all add: LocalResolvers_AddDefaultFactory)

lemma InstanceFactories_AddDefaultFactory:
  "InstanceFactories (Storages (AddDefaultFactory env s st) s) =
     InstanceFactories (Storages st s) @ (if s = 0 then [DefaultInstanceFactory env] else [])"
  by (simp add: AddDefaultFactory_def set_InstanceFactories_def)

lemma InitServices_unfold:
  "InitServices n env s st =
     (if Contains (Registrations (Storages st s)) (UInstanceFactory_StaticClass env) then
        (case ResolveAll n env s (UInstanceFactory_StaticClass env) (AddDefaultFactory env s st) of
           None \<Rightarrow> None
         | Some (Inl e) \<Rightarrow> Some (Inl e)
         | Some (Inr (coll, st2)) \<Rightarrow>
             Some (Inr ((), set_InstanceFactories s
                              (rev (InstanceFactories (Storages st2 s) @ Written coll)) st2)))
      else Some (Inr ((), set_InstanceFactories s
                            (rev (InstanceFactories (Storages (AddDefaultFactory env s st) s)))
                            (AddDefaultFactory env s st))))"
  by (simp add: InitServices_def Let_def Registrations_AddDefaultFactory)

lemma InstanceFactories_set: "InstanceFactories (Storages (set_InstanceFactories s fs st) s) = fs"
  by (simp add: set_InstanceFactories_def)

lemma AllResolvers_split:
  "AllResolvers s T st = AncestorResolvers s T st @ map (Pair s) (LocalResolvers s T st)"
  by (cases s) (simp_all add: AncestorResolvers_def)

lemma ResolveEach_acc:
  "ResolveEach rec env bs D st =
     (case ResolveEach rec env bs [] st of
        None \<Rightarrow> None
      | Some (Inl e) \<Rightarrow> Some (Inl e)
      | Some (Inr (R, st')) \<Rightarrow> Some (Inr (D @ R, st')))"
proof (induction bs arbitrary: D st)
  case Nil
  show ?case by simp
next
  case (Cons b bs)
  obtain s r where b: "b = (s, r)" by (cases b)
  show ?case
    using Cons[of "D @ [x]" for x] Cons[of "[x]" for x]
    by (simp add: b split: option.splits sum.splits)
qed

lemma find_append_list: "find P (xs @ ys) = (case find P xs of None \<Rightarrow> find P ys | Some x \<Rightarrow> Some x)"
  by (induction xs) simp_all

lemma FindLocalFactory_find:
  "\<forall>f\<in>set fs. f < length (Objects st) \<Longrightarrow>
   FindLocalFactory env st fs T = Inr (find (Supports env st T) fs)"
  by (induction fs) (auto simp: Supports_def GetClass_def)

lemma FindInstanceFactory_find:
  "\<forall>f\<in>set (FactoryChain s st). f < length (Objects st) \<Longrightarrow>
   FindInstanceFactory env s T st =
     (case find (Supports env st T) (FactoryChain s st) of
        None \<Rightarrow> Inl NullParentStorage
      | Some f \<Rightarrow> Inr f)"
proof (induction s)
  case 0
  then show ?case by (simp add: FindLocalFactory_find split: option.splits)
next
  case (Suc p)
  then show ?case
    by (simp add: FindLocalFactory_find find_append_list split: option.splits)
qed

lemma find_rev_last:
  "k < length xs \<Longrightarrow> P (xs ! k) \<Longrightarrow> (\<forall>j. k < j \<and> j < length xs \<longrightarrow> \<not> P (xs ! j)) \<Longrightarrow>
   find P (rev xs @ ys) = Some (xs ! k)"
proof (induction xs rule: rev_induct)
  case Nil
  then show ?case by simp
next
  case (snoc z zs)
  show ?case
  proof (cases "k = length zs")
    case True
    with snoc.prems(2) show ?thesis by simp
  next
    case False
    with snoc.prems(1) have k: "k < length zs" by simp
    from snoc.prems(3) k have nz: "\<not> P z"
      by (auto dest: spec[of _ "length zs"])
    have "\<forall>j. k < j \<and> j < length zs \<longrightarrow> \<not> P (zs ! j)"
    proof (intro allI impI)
      fix j assume j: "k < j \<and> j < length zs"
      with snoc.prems(3) have "\<not> P ((zs @ [z]) ! j)" by simp
      with j show "\<not> P (zs ! j)" by (simp add: nth_append)
    qed
    from snoc.IH[OF k _ this] snoc.prems(2) k nz show ?thesis
      by (simp add: nth_append)
  qed
qed

lemma set_InstanceFactories_AddDefaultFactory:
  "set_InstanceFactories s fs (AddDefaultFactory env s st) = set_InstanceFactories s fs st"
  by (simp add: AddDefaultFactory_def set_InstanceFactories_def)

lemma rev_DefaultOfRoot: "rev (DefaultOfRoot env s) = DefaultOfRoot env s"
  by (simp add: DefaultOfRoot_def)

lemma ResolveEach_stages:
  "ResolveEach rec env (xs @ ys) [] st =
     (case ResolveEach rec env xs [] st of
        None \<Rightarrow> None
      | Some (Inl e) \<Rightarrow> Some (Inl e)
      | Some (Inr (A, sta)) \<Rightarrow>
          (case ResolveEach rec env ys [] sta of
             None \<Rightarrow> None
           | Some (Inl e) \<Rightarrow> Some (Inl e)
           | Some (Inr (B, st2)) \<Rightarrow> Some (Inr (A @ B, st2))))"
proof (cases "ResolveEach rec env xs [] st")
  case None
  then show ?thesis by (simp add: ResolveEach_append)
next
  case (Some a)
  show ?thesis
  proof (cases a)
    case (Inl e)
    with Some show ?thesis by (simp add: ResolveEach_append)
  next
    case (Inr q)
    obtain A sta where q: "q = (A, sta)" by (cases q)
    from Some Inr q show ?thesis
      by (simp add: ResolveEach_append ResolveEach_acc[of rec env ys A sta])
  qed
qed

lemma ResolveAll_stages:
  "ResolveAll n env s T (AddDefaultFactory env s st) =
     (if AllResolvers s T st = [] then Some (Inl (TypeNotRegistered T))
      else
        (case ResolveEach (Resolve n env) env (AncestorResolvers s T st) []
                (AddDefaultFactory env s st) of
           None \<Rightarrow> None
         | Some (Inl e) \<Rightarrow> Some (Inl e)
         | Some (Inr (anc, sta)) \<Rightarrow>
             (case ResolveEach (Resolve n env) env (map (Pair s) (LocalResolvers s T st)) [] sta of
                None \<Rightarrow> None
              | Some (Inl e) \<Rightarrow> Some (Inl e)
              | Some (Inr (loc, st2)) \<Rightarrow>
                  Some (Inr (\<lparr>Written = anc @ loc, Num = length (AllResolvers s T st)\<rparr>, st2)))))"
proof -
  have "ResolveEach (Resolve n env) env (AllResolvers s T st) [] (AddDefaultFactory env s st) =
          ResolveEach (Resolve n env) env
            (AncestorResolvers s T st @ map (Pair s) (LocalResolvers s T st)) []
            (AddDefaultFactory env s st)"
    by (simp only: AllResolvers_split[symmetric])
  then show ?thesis
    by (simp add: ResolveAll_ResolveEach AllResolvers_AddDefaultFactory ResolveEach_stages
             split: option.splits sum.splits del: AllResolvers.simps)
qed

lemma InitServices_equation:
  assumes empty: "InstanceFactories (Storages st s) = []"
  shows "InitServices n env s st =
     (if Contains (Registrations (Storages st s)) (UInstanceFactory_StaticClass env) then
        (if AllResolvers s (UInstanceFactory_StaticClass env) st = []
         then Some (Inl (TypeNotRegistered (UInstanceFactory_StaticClass env)))
         else
           (case ResolveEach (Resolve n env) env
                   (AncestorResolvers s (UInstanceFactory_StaticClass env) st) []
                   (AddDefaultFactory env s st) of
              None \<Rightarrow> None
            | Some (Inl e) \<Rightarrow> Some (Inl e)
            | Some (Inr (anc, sta)) \<Rightarrow>
                (case ResolveEach (Resolve n env) env
                        (map (Pair s) (LocalResolvers s (UInstanceFactory_StaticClass env) st))
                        [] sta of
                   None \<Rightarrow> None
                 | Some (Inl e) \<Rightarrow> Some (Inl e)
                 | Some (Inr (loc, st2)) \<Rightarrow>
                     Some (Inr ((), set_InstanceFactories s
                                      (rev loc @ rev anc @ DefaultOfRoot env s) st2)))))
      else Some (Inr ((), set_InstanceFactories s (DefaultOfRoot env s) st)))"
proof (cases "Contains (Registrations (Storages st s)) (UInstanceFactory_StaticClass env)")
  case False
  then show ?thesis
    using empty
    by (simp add: InitServices_unfold InstanceFactories_AddDefaultFactory
                  set_InstanceFactories_AddDefaultFactory DefaultOfRoot_def)
next
  case True
  let ?T = "UInstanceFactory_StaticClass env"
  let ?st1 = "AddDefaultFactory env s st"
  have d: "InstanceFactories (Storages ?st1 s) = DefaultOfRoot env s"
    using empty by (simp add: InstanceFactories_AddDefaultFactory DefaultOfRoot_def)
  have keep: "InstanceFactories (Storages st2 s) = DefaultOfRoot env s"
    if a: "ResolveEach (Resolve n env) env (AncestorResolvers s ?T st) [] ?st1 = Some (Inr (anc, sta))"
    and l: "ResolveEach (Resolve n env) env (map (Pair s) (LocalResolvers s ?T st)) [] sta
              = Some (Inr (loc, st2))"
    for anc sta loc st2
    using frame_InstanceFactories[OF ResolveEach_frame[OF Resolve_frame l], of s]
          frame_InstanceFactories[OF ResolveEach_frame[OF Resolve_frame a], of s] d
    by simp
  show ?thesis
    using True keep
    by (simp add: InitServices_unfold ResolveAll_stages rev_DefaultOfRoot
             split: option.splits sum.splits del: AllResolvers.simps)
qed

lemma FactoryChain_own:
  "FactoryChain s st =
     InstanceFactories (Storages st s) @ (case s of 0 \<Rightarrow> [] | Suc p \<Rightarrow> FactoryChain p st)"
  by (cases s) simp_all

lemma FindInstanceFactory_latest_local:
  assumes valid: "\<forall>f\<in>set (FactoryChain s st). f < length (Objects st)"
      and own: "InstanceFactories (Storages st s) = rev loc @ rest"
      and k: "k < length loc" and sup: "Supports env st T (loc ! k)"
      and later: "\<forall>j. k < j \<and> j < length loc \<longrightarrow> \<not> Supports env st T (loc ! j)"
  shows "FindInstanceFactory env s T st = Inr (loc ! k)"
proof -
  have "FactoryChain s st = rev loc @ (rest @ (case s of 0 \<Rightarrow> [] | Suc p \<Rightarrow> FactoryChain p st))"
    using FactoryChain_own[of s st] own by simp
  then have "find (Supports env st T) (FactoryChain s st) = Some (loc ! k)"
    using find_rev_last[OF k, of "Supports env st T", OF sup later] by simp
  with FindInstanceFactory_find[OF valid, of env T] show ?thesis by simp
qed

lemma FindInstanceFactory_delegates:
  assumes valid: "\<forall>f\<in>set (FactoryChain (Suc p) st). f < length (Objects st)"
      and none: "\<forall>f\<in>set (InstanceFactories (Storages st (Suc p))). \<not> Supports env st T f"
  shows "FindInstanceFactory env (Suc p) T st = FindInstanceFactory env p T st"
proof -
  from none have "find (Supports env st T) (InstanceFactories (Storages st (Suc p))) = None"
    by (simp add: find_None_iff)
  moreover from valid have "\<forall>f\<in>set (FactoryChain p st). f < length (Objects st)" by simp
  ultimately show ?thesis
    using FindInstanceFactory_find[OF valid, of env T]
          FindInstanceFactory_find[of p st env T]
    by (simp add: find_append_list)
qed

text \<open>
  Claim C7, as the code has it. \<^verbatim>\<open>InitServices\<close> on a storage with an empty list
  leaves as own list exactly: the factories resolved from the local
  \<^verbatim>\<open>UInstanceFactory\<close> bindings, the one registered last first; then, when the local
  table has that key, the factories that \<^verbatim>\<open>ResolveAll\<close> resolved from the bindings of
  the ancestors, again reversed; then, in the root only, the default factory.
  \<^verbatim>\<open>FindInstanceFactory\<close> returns the first factory that supports the type in the own
  list followed by the lists of the ancestors up to the root, and fails in the root when
  there is none. So of the factories of the local bindings that support the type the
  one registered last is chosen, and a storage with a parent whose own list has no
  factory for the type gets what its parent finds.
\<close>

theorem InitServices_factory_order:
  "(InstanceFactories (Storages st s) = [] \<longrightarrow>
      InitServices n env s st =
        (if Contains (Registrations (Storages st s)) (UInstanceFactory_StaticClass env) then
           (if AllResolvers s (UInstanceFactory_StaticClass env) st = []
            then Some (Inl (TypeNotRegistered (UInstanceFactory_StaticClass env)))
            else
              (case ResolveEach (Resolve n env) env
                      (AncestorResolvers s (UInstanceFactory_StaticClass env) st) []
                      (AddDefaultFactory env s st) of
                 None \<Rightarrow> None
               | Some (Inl e) \<Rightarrow> Some (Inl e)
               | Some (Inr (anc, sta)) \<Rightarrow>
                   (case ResolveEach (Resolve n env) env
                           (map (Pair s) (LocalResolvers s (UInstanceFactory_StaticClass env) st))
                           [] sta of
                      None \<Rightarrow> None
                    | Some (Inl e) \<Rightarrow> Some (Inl e)
                    | Some (Inr (loc, st2)) \<Rightarrow>
                        Some (Inr ((), set_InstanceFactories s
                                         (rev loc @ rev anc @ DefaultOfRoot env s) st2)))))
         else Some (Inr ((), set_InstanceFactories s (DefaultOfRoot env s) st)))) \<and>
   ((\<forall>f\<in>set (FactoryChain s st). f < length (Objects st)) \<longrightarrow>
      FindInstanceFactory env s T st =
        (case find (Supports env st T) (FactoryChain s st) of
           None \<Rightarrow> Inl NullParentStorage
         | Some f \<Rightarrow> Inr f)) \<and>
   ((\<forall>f\<in>set (FactoryChain s st). f < length (Objects st)) \<and>
    InstanceFactories (Storages st s) = rev loc @ rest \<and>
    k < length loc \<and> Supports env st T (loc ! k) \<and>
    (\<forall>j. k < j \<and> j < length loc \<longrightarrow> \<not> Supports env st T (loc ! j)) \<longrightarrow>
      FindInstanceFactory env s T st = Inr (loc ! k)) \<and>
   ((\<forall>f\<in>set (FactoryChain (Suc p) st). f < length (Objects st)) \<and>
    (\<forall>f\<in>set (InstanceFactories (Storages st (Suc p))). \<not> Supports env st T f) \<longrightarrow>
      FindInstanceFactory env (Suc p) T st = FindInstanceFactory env p T st)"
proof (intro conjI impI)
  assume "InstanceFactories (Storages st s) = []"
  then show "InitServices n env s st =
        (if Contains (Registrations (Storages st s)) (UInstanceFactory_StaticClass env) then
           (if AllResolvers s (UInstanceFactory_StaticClass env) st = []
            then Some (Inl (TypeNotRegistered (UInstanceFactory_StaticClass env)))
            else
              (case ResolveEach (Resolve n env) env
                      (AncestorResolvers s (UInstanceFactory_StaticClass env) st) []
                      (AddDefaultFactory env s st) of
                 None \<Rightarrow> None
               | Some (Inl e) \<Rightarrow> Some (Inl e)
               | Some (Inr (anc, sta)) \<Rightarrow>
                   (case ResolveEach (Resolve n env) env
                           (map (Pair s) (LocalResolvers s (UInstanceFactory_StaticClass env) st))
                           [] sta of
                      None \<Rightarrow> None
                    | Some (Inl e) \<Rightarrow> Some (Inl e)
                    | Some (Inr (loc, st2)) \<Rightarrow>
                        Some (Inr ((), set_InstanceFactories s
                                         (rev loc @ rev anc @ DefaultOfRoot env s) st2)))))
         else Some (Inr ((), set_InstanceFactories s (DefaultOfRoot env s) st)))"
    by (rule InitServices_equation)
next
  assume "\<forall>f\<in>set (FactoryChain s st). f < length (Objects st)"
  then show "FindInstanceFactory env s T st =
        (case find (Supports env st T) (FactoryChain s st) of
           None \<Rightarrow> Inl NullParentStorage
         | Some f \<Rightarrow> Inr f)"
    by (rule FindInstanceFactory_find)
next
  assume "(\<forall>f\<in>set (FactoryChain s st). f < length (Objects st)) \<and>
    InstanceFactories (Storages st s) = rev loc @ rest \<and>
    k < length loc \<and> Supports env st T (loc ! k) \<and>
    (\<forall>j. k < j \<and> j < length loc \<longrightarrow> \<not> Supports env st T (loc ! j))"
  then show "FindInstanceFactory env s T st = Inr (loc ! k)"
    using FindInstanceFactory_latest_local[of s st loc rest k env T] by blast
next
  assume "(\<forall>f\<in>set (FactoryChain (Suc p) st). f < length (Objects st)) \<and>
    (\<forall>f\<in>set (InstanceFactories (Storages st (Suc p))). \<not> Supports env st T f)"
  then show "FindInstanceFactory env (Suc p) T st = FindInstanceFactory env p T st"
    using FindInstanceFactory_delegates[of p st env T] by blast
qed

theorem InitServices_factory_order_witness:
  "InstanceFactories (Storages fx_root 1) = [] \<and>
   (case InitServices 0 fx_env 1 fx_root of
      Some (Inr (u, st')) \<Rightarrow>
        InstanceFactories (Storages st' 1) = rev [3] @ rev [2] @ DefaultOfRoot fx_env 1
    | _ \<Rightarrow> False) \<and>
   InitServices 0 fx_env 1 fx_root = Some (Inr ((), fx_child)) \<and>
   InstanceFactories (Storages fx_child 1) = [3, 2] \<and>
   FactoryChain 1 fx_child = [3, 2, 1, 0] \<and>
   map ObjClass (Objects fx_child) = [10, 20, 20, 21] \<and>
   find (Supports fx_env fx_child 7) (FactoryChain 1 fx_child) = Some 2 \<and>
   FindInstanceFactory fx_env 1 7 fx_child = Inr 2 \<and>
   FindInstanceFactory fx_env (Suc 0) 9 fx_child = FindInstanceFactory fx_env 0 9 fx_child \<and>
   FindInstanceFactory fx_env 0 9 fx_child = Inr 0 \<and>
   InstanceFactories (Storages fx_two 0) = rev [1, 2] @ [0] \<and>
   FactoryChain 0 fx_two = [2, 1, 0] \<and>
   map ObjClass (Objects fx_two) = [10, 20, 22] \<and>
   Supports fx_env fx_two 7 1 \<and> Supports fx_env fx_two 7 2 \<and>
   FindInstanceFactory fx_env 0 7 fx_two = Inr 2 \<and>
   FindInstanceFactory fx_env 0 9 fx_two = Inr 0"
proof -
  have run: "InitServices 0 fx_env 1 fx_root = Some (Inr ((), fx_child)) \<and>
   InstanceFactories (Storages fx_child 1) = [3, 2] \<and>
   FactoryChain 1 fx_child = [3, 2, 1, 0] \<and>
   map ObjClass (Objects fx_child) = [10, 20, 20, 21] \<and>
   find (Supports fx_env fx_child 7) (FactoryChain 1 fx_child) = Some 2 \<and>
   FindInstanceFactory fx_env 0 9 fx_child = Inr 0 \<and>
   InstanceFactories (Storages fx_two 0) = rev [1, 2] @ [0] \<and>
   FactoryChain 0 fx_two = [2, 1, 0] \<and>
   map ObjClass (Objects fx_two) = [10, 20, 22] \<and>
   Supports fx_env fx_two 7 1 \<and> Supports fx_env fx_two 7 2 \<and>
   FindInstanceFactory fx_env 0 9 fx_two = Inr 0"
    by (simp add: fx_defs run_defs Supports_def)
  have e: "InstanceFactories (Storages fx_root 1) = []"
    by (simp add: fx_defs run_defs)
  have i: "(case InitServices 0 fx_env 1 fx_root of
      Some (Inr (u, st')) \<Rightarrow>
        InstanceFactories (Storages st' 1) = rev [3] @ rev [2] @ DefaultOfRoot fx_env 1
    | _ \<Rightarrow> False)"
    unfolding InitServices_factory_order[where st = fx_root and s = 1 and env = fx_env and n = 0,
                THEN conjunct1, THEN mp, OF e]
    by (simp add: fx_defs run_defs AncestorResolvers_def LocalResolvers_def DefaultOfRoot_def)
  have v: "\<forall>f\<in>set (FactoryChain 1 fx_child). f < length (Objects fx_child)"
    by (simp add: fx_defs run_defs)
  have fnd: "find (Supports fx_env fx_child 7) (FactoryChain 1 fx_child) = Some 2"
    by (simp add: fx_defs run_defs Supports_def)
  have c7: "FindInstanceFactory fx_env 1 7 fx_child = Inr 2"
    by (simp only: InitServices_factory_order[where st = fx_child and s = 1 and env = fx_env
                     and T = 7, THEN conjunct2, THEN conjunct1, THEN mp, OF v]
                   fnd option.case)
  have d: "(\<forall>f\<in>set (FactoryChain (Suc 0) fx_child). f < length (Objects fx_child)) \<and>
           (\<forall>f\<in>set (InstanceFactories (Storages fx_child (Suc 0))). \<not> Supports fx_env fx_child 9 f)"
    by (simp add: fx_defs run_defs Supports_def)
  note c9 = InitServices_factory_order[where st = fx_child and env = fx_env and T = 9 and p = 0,
              THEN conjunct2, THEN conjunct2, THEN conjunct2, THEN mp, OF d]
  have l: "(\<forall>f\<in>set (FactoryChain 0 fx_two). f < length (Objects fx_two)) \<and>
    InstanceFactories (Storages fx_two 0) = rev [1, 2] @ [0] \<and>
    1 < length [1::nat, 2] \<and> Supports fx_env fx_two 7 ([1, 2] ! 1) \<and>
    (\<forall>j. 1 < j \<and> j < length [1::nat, 2] \<longrightarrow> \<not> Supports fx_env fx_two 7 ([1, 2] ! j))"
    by (auto simp: fx_defs run_defs Supports_def)
  have two: "FindInstanceFactory fx_env 0 7 fx_two = Inr 2"
    using InitServices_factory_order[where st = fx_two and s = 0 and env = fx_env and T = 7
            and loc = "[1, 2]" and rest = "[0]" and k = 1,
            THEN conjunct2, THEN conjunct2, THEN conjunct1, THEN mp, OF l]
    by simp
  from run e i c7 c9 two show ?thesis by blast
qed

text \<open>
  The chain with user factories after both initializations: the only factory the child
  registered locally (object \<open>3\<close>) does not support class \<open>7\<close>, yet the child does not
  get what its parent finds: it returns object \<open>2\<close>, an instance that its own
  \<^verbatim>\<open>ResolveAll\<close> resolved from the binding of the root, where the chain of its parent
  returns object \<open>1\<close>.
\<close>

theorem FindInstanceFactory_not_delegated:
  "InstanceFactories (Storages fx_child 0) = [1, 0] \<and>
   InstanceFactories (Storages fx_child 1) = [3, 2] \<and>
   map ObjClass (Objects fx_child) = [10, 20, 20, 21] \<and>
   LocalResolvers 1 11 fx_child = [\<lparr>EffectiveClass = Some 21, LifetimeHandler = 1\<rparr>] \<and>
   FindLocalFactory fx_env fx_child [3] 7 = Inr None \<and>
   FindInstanceFactory fx_env 1 7 fx_child = Inr 2 \<and>
   FindInstanceFactory fx_env 0 7 fx_child = Inr 1 \<and>
   FindInstanceFactory fx_env 1 7 fx_child \<noteq> FindInstanceFactory fx_env 0 7 fx_child"
  by (simp add: fx_defs run_defs LocalResolvers_def)

end
